theory Spec2Isabelle
  imports Complex_Main
begin

section \<open>Vectors\<close>

text \<open>
  The scene manager of \<^verbatim>\<open>src/src/App.jsx\<close> computes on \<^verbatim>\<open>THREE.Vector2\<close> and
  \<^verbatim>\<open>THREE.Vector3\<close> values. JavaScript numbers are modelled as real numbers: the
  rounding of IEEE doubles is outside this development, and every statement below is
  a statement of exact arithmetic.
\<close>

datatype Vector2 = Vector2 (v2x: real) (v2y: real)

datatype Vector3 = Vector3 (vx: real) (vy: real) (vz: real)

text \<open>
  \<^verbatim>\<open>Vector3.lerp(v, alpha)\<close> of three.js: \<^verbatim>\<open>this.x += (v.x - this.x) * alpha\<close>, and the
  same for y and z.
\<close>

definition lerp :: "Vector3 \<Rightarrow> Vector3 \<Rightarrow> real \<Rightarrow> Vector3" where
  "lerp this v alpha =
     Vector3 (vx this + (vx v - vx this) * alpha)
             (vy this + (vy v - vy this) * alpha)
             (vz this + (vz v - vz this) * alpha)"

text \<open>
  \<^verbatim>\<open>Vector3.lerpVectors(v1, v2, alpha)\<close> of three.js:
  \<^verbatim>\<open>this.x = v1.x + (v2.x - v1.x) * alpha\<close>, and the same for y and z.
\<close>

definition lerpVectors :: "Vector3 \<Rightarrow> Vector3 \<Rightarrow> real \<Rightarrow> Vector3" where
  "lerpVectors v1 v2 alpha =
     Vector3 (vx v1 + (vx v2 - vx v1) * alpha)
             (vy v1 + (vy v2 - vy v1) * alpha)
             (vz v1 + (vz v2 - vz v1) * alpha)"

section \<open>Constants and configuration\<close>

record camera_config =
  cfg_position :: Vector3
  cfg_target :: Vector3

text \<open>The own properties of the object literal \<^verbatim>\<open>CAMERA_POSITIONS\<close>, in source order.\<close>

definition CAMERA_POSITIONS :: "(string \<times> camera_config) list" where
  "CAMERA_POSITIONS =
     [(''home'', \<lparr>cfg_position = Vector3 0 0 12, cfg_target = Vector3 0 0 0\<rparr>),
      (''about'', \<lparr>cfg_position = Vector3 (- 8) 3 8, cfg_target = Vector3 (- 2) 0 0\<rparr>),
      (''skills'', \<lparr>cfg_position = Vector3 8 3 8, cfg_target = Vector3 2 0 0\<rparr>),
      (''experience'', \<lparr>cfg_position = Vector3 0 (- 6) 10, cfg_target = Vector3 0 (- 2) 0\<rparr>),
      (''projects'', \<lparr>cfg_position = Vector3 0 8 15, cfg_target = Vector3 0 2 0\<rparr>),
      (''contact'', \<lparr>cfg_position = Vector3 0 0 20, cfg_target = Vector3 0 0 0\<rparr>)]"

text \<open>
  \<^verbatim>\<open>CAMERA_POSITIONS\<close> is an object literal, so its prototype is \<^verbatim>\<open>Object.prototype\<close>
  and a property read with a computed key that is no own property goes on to the
  prototype. These are the property names of \<^verbatim>\<open>Object.prototype\<close>; each holds a
  function, except \<^verbatim>\<open>__proto__\<close>, whose getter returns \<^verbatim>\<open>Object.prototype\<close> itself.
\<close>

definition Object_prototype :: "string list" where
  "Object_prototype =
     [''constructor'', ''__proto__'', ''hasOwnProperty'', ''isPrototypeOf'',
      ''propertyIsEnumerable'', ''toLocaleString'', ''toString'', ''valueOf'',
      ''__defineGetter__'', ''__defineSetter__'', ''__lookupGetter__'',
      ''__lookupSetter__'']"

text \<open>
  What a read of \<^verbatim>\<open>CAMERA_POSITIONS[key]\<close> yields: one of the six configurations, a
  value inherited from \<^verbatim>\<open>Object.prototype\<close> (a function or an object, truthy, with no
  \<^verbatim>\<open>position\<close> property), or \<^verbatim>\<open>undefined\<close>.
\<close>

datatype js_value = Config camera_config | Inherited | Undefined

datatype js_error = TypeError

definition js_get :: "string \<Rightarrow> js_value" where
  "js_get key =
     (case map_of CAMERA_POSITIONS key of
        Some c \<Rightarrow> Config c
      | None \<Rightarrow> if key \<in> set Object_prototype then Inherited else Undefined)"

text \<open>
  \<^verbatim>\<open>const targetConfig = CAMERA_POSITIONS[currentSection] || CAMERA_POSITIONS.home\<close>:
  \<^verbatim>\<open>||\<close> takes its right operand only when the left one is falsy, and of the three
  kinds of value only \<^verbatim>\<open>undefined\<close> is.
\<close>

definition targetConfig :: "string \<Rightarrow> js_value" where
  "targetConfig currentSection =
     (case js_get currentSection of
        Undefined \<Rightarrow> js_get ''home''
      | v \<Rightarrow> v)"

text \<open>
  \<^verbatim>\<open>new THREE.Vector3(...targetConfig.position)\<close>: the spread of a missing
  \<^verbatim>\<open>position\<close> (\<^verbatim>\<open>undefined\<close> is not iterable) throws a \<^verbatim>\<open>TypeError\<close>.
\<close>

definition targetPosition :: "js_value \<Rightarrow> js_error + Vector3" where
  "targetPosition v =
     (case v of Config c \<Rightarrow> Inr (cfg_position c) | Inherited \<Rightarrow> Inl TypeError
      | Undefined \<Rightarrow> Inl TypeError)"

section \<open>Scene objects\<close>

datatype geometry =
    IcosahedronGeometry real nat
  | BoxGeometry real real real
  | SphereGeometry real nat nat
  | RingGeometry real real nat

record experience =
  exp_pos :: Vector3
  exp_year :: string
  exp_role :: string

record userData =
  ud_section :: string
  ud_type :: string
  ud_data :: "experience option"

text \<open>A \<^verbatim>\<open>THREE.Mesh\<close>: \<open>mesh_rotation\<close> holds the Euler angles x, y, z.\<close>

record mesh =
  mesh_geometry :: geometry
  mesh_position :: Vector3
  mesh_rotation :: Vector3
  mesh_scale :: Vector3
  mesh_userData :: userData

record lights =
  keyLight_position :: Vector3
  fillLight_position :: Vector3
  rimLight_position :: Vector3
  rimLight_intensity :: real

text \<open>
  The particle field: only its rotation changes after it is built (the 2000 random
  vertex positions and colours are set once and are not part of the model).
\<close>

record particles =
  particles_rotation :: Vector3

text \<open>
  The camera: its position and the point of the last \<^verbatim>\<open>camera.lookAt\<close> call
  (\<open>None\<close> before the first call: the default orientation).
\<close>

record camera =
  cam_position :: Vector3
  cam_lookAt :: "Vector3 option"

text \<open>
  The closure of one \<^verbatim>\<open>animateCamera\<close> callback chain: \<^verbatim>\<open>startPosition\<close>,
  \<^verbatim>\<open>targetPosition\<close>, \<^verbatim>\<open>targetConfig.target\<close> and the mutable \<^verbatim>\<open>progress\<close>.
\<close>

record transition =
  tr_startPosition :: Vector3
  tr_targetPosition :: Vector3
  tr_target :: Vector3
  tr_progress :: real

text \<open>A callback registered with \<^verbatim>\<open>requestAnimationFrame\<close>.\<close>

datatype callback = AnimateCamera transition | Animate

text \<open>
  The state of the mounted application: the \<^verbatim>\<open>currentSection\<close> of \<^verbatim>\<open>Portfolio3D\<close>, the
  refs of \<^verbatim>\<open>SceneManager\<close> (\<^verbatim>\<open>cameraRef\<close>, \<^verbatim>\<open>mouseRef\<close>, the fields of \<^verbatim>\<open>objectsRef\<close>),
  the callbacks waiting for the next animation frame in the order of their registration,
  and the camera of every \<^verbatim>\<open>renderer.render\<close> call so far, oldest first.
  \<^verbatim>\<open>objectsRef.current.core\<close> is the same object as the first element of
  \<^verbatim>\<open>navigationObjects\<close>: \<open>core\<close> is its index in that list.
  \<open>sceneDep\<close> tells whether the dependency array \<^verbatim>\<open>[sceneRef.current]\<close> of the last
  render held the scene: at the first render \<^verbatim>\<open>sceneRef.current\<close> is still undefined
  (\<^verbatim>\<open>useRef()\<close>; the scene is stored by the first effect), at every later one it is
  the scene.
\<close>

record app_state =
  currentSection :: string
  cameraRef :: "camera option"
  mouseRef :: Vector2
  lightsRef :: "lights option"
  particlesRef :: "particles option"
  navigationObjects :: "mesh list option"
  core :: "nat option"
  rafQueue :: "callback list"
  rendered :: "camera list"
  sceneDep :: bool

section \<open>Scene construction\<close>

definition coreMesh :: mesh where
  "coreMesh =
     \<lparr>mesh_geometry = IcosahedronGeometry 1.5 2, mesh_position = Vector3 0 0 0,
      mesh_rotation = Vector3 0 0 0, mesh_scale = Vector3 1 1 1,
      mesh_userData = \<lparr>ud_section = ''about'', ud_type = ''core'', ud_data = None\<rparr>\<rparr>"

definition skillsPositions :: "Vector3 list" where
  "skillsPositions = [Vector3 (- 5) 2 0, Vector3 5 2 0, Vector3 0 4 (- 3), Vector3 0 (- 2) 3]"

definition skillsLabels :: "string list" where
  "skillsLabels = [''embedded'', ''ai'', ''software'', ''hardware'']"

definition skillMesh :: "Vector3 \<Rightarrow> string \<Rightarrow> mesh" where
  "skillMesh pos label =
     \<lparr>mesh_geometry = BoxGeometry 0.8 0.8 0.8, mesh_position = pos,
      mesh_rotation = Vector3 0 0 0, mesh_scale = Vector3 1 1 1,
      mesh_userData = \<lparr>ud_section = ''skills'', ud_type = label, ud_data = None\<rparr>\<rparr>"

definition experienceData :: "experience list" where
  "experienceData =
     [\<lparr>exp_pos = Vector3 (- 10) 1 0, exp_year = ''2024'',
       exp_role = ''Firmware Engineer @ Enedis''\<rparr>,
      \<lparr>exp_pos = Vector3 (- 8) (- 1) 0, exp_year = ''2023'',
       exp_role = ''AI Engineer @ OCP Group''\<rparr>,
      \<lparr>exp_pos = Vector3 (- 6) 0.5 0, exp_year = ''2021-2025'',
       exp_role = ''MSc @ Grenoble INP''\<rparr>]"

definition nodeMesh :: "experience \<Rightarrow> mesh" where
  "nodeMesh e =
     \<lparr>mesh_geometry = SphereGeometry 0.3 16 16, mesh_position = exp_pos e,
      mesh_rotation = Vector3 0 0 0, mesh_scale = Vector3 1 1 1,
      mesh_userData = \<lparr>ud_section = ''experience'', ud_type = ''node'', ud_data = Some e\<rparr>\<rparr>"

definition projectsRing :: mesh where
  "projectsRing =
     \<lparr>mesh_geometry = RingGeometry 2 3 8, mesh_position = Vector3 0 8 0,
      mesh_rotation = Vector3 (pi / 2) 0 0, mesh_scale = Vector3 1 1 1,
      mesh_userData = \<lparr>ud_section = ''projects'', ud_type = ''gallery'', ud_data = None\<rparr>\<rparr>"

text \<open>
  The array \<^verbatim>\<open>navigationObjects\<close> in push order. The grey timeline cylinder is added to
  the scene but never pushed, so it is no navigable object.
\<close>

definition buildNavigationObjects :: "mesh list" where
  "buildNavigationObjects =
     [coreMesh] @ map2 skillMesh skillsPositions skillsLabels
       @ map nodeMesh experienceData @ [projectsRing]"

definition buildLights :: lights where
  "buildLights =
     \<lparr>keyLight_position = Vector3 10 10 5, fillLight_position = Vector3 (- 10) (- 5) 5,
      rimLight_position = Vector3 0 15 (- 10), rimLight_intensity = 1\<rparr>"

text \<open>
  The three effects with the dependency array \<^verbatim>\<open>[sceneRef.current]\<close>, in hook order: the
  lights, the particles and the navigation objects. Each stores fresh objects in
  \<^verbatim>\<open>objectsRef\<close>; none has a cleanup, so what an earlier run added stays in the scene
  but is no longer referenced.
\<close>

definition buildEffects :: "app_state \<Rightarrow> app_state" where
  "buildEffects st =
     st\<lparr>lightsRef := Some buildLights,
        particlesRef := Some \<lparr>particles_rotation = Vector3 0 0 0\<rparr>,
        navigationObjects := Some buildNavigationObjects,
        core := Some 0\<rparr>"

section \<open>Pointer picking\<close>

text \<open>
  One entry of the array that \<^verbatim>\<open>Raycaster.intersectObjects\<close> returns: the distance
  from the ray's origin and the object hit, held as its index in the array that was
  passed in.
\<close>

record intersection =
  hit_distance :: real
  hit_object :: nat

text \<open>
  The geometric test of the meshes against the ray that
  \<^verbatim>\<open>raycaster.setFromCamera(mouseRef.current, cameraRef.current)\<close> sets up
  (\<^verbatim>\<open>Mesh.raycast\<close> of three.js) is an input of every click and of every frame:
  \<open>hits i\<close> are the distances at which the ray meets the object of index \<open>i\<close>.
\<close>

type_synonym hits = "nat \<Rightarrow> real list"

text \<open>
  Modelled from the spec: \<^verbatim>\<open>THREE.Raycaster.intersectObjects\<close> is library code that is
  not in the repository. The specification's pointer picker "returns the nearest
  intersected NavigableObject, if any, else none", and three.js documents the result as
  sorted by distance, closest first: the library collects the hits of every object in
  array order and sorts them with the comparison \<^verbatim>\<open>a.distance - b.distance\<close>
  (\<^verbatim>\<open>Array.prototype.sort\<close> is stable).
\<close>

definition intersectObjects :: "hits \<Rightarrow> mesh list \<Rightarrow> intersection list" where
  "intersectObjects h objs =
     sort_key hit_distance
       (concat (map (\<lambda>i. map (\<lambda>d. \<lparr>hit_distance = d, hit_object = i\<rparr>) (h i))
                    [0..<length objs]))"

section \<open>Camera animation\<close>

text \<open>
  One call of the closure \<^verbatim>\<open>animateCamera\<close>: the new camera and, when the callback
  registered itself again with \<^verbatim>\<open>requestAnimationFrame\<close>, the closure it goes on with.
  Over the real numbers the fiftieth call of a chain finds \<open>progress = 1\<close> and writes
  the destination itself; in the doubles of the source fifty additions of 0.02 give
  1.0000000000000004, so there the fiftieth call writes nothing and the chain ends one
  step short of the destination, at the eased parameter 0.999992. No theorem of the
  last section depends on what the fiftieth call writes: where one reads the camera,
  the parameter stays below 1, and there the two agree in the branch taken.
\<close>

definition animateCamera :: "transition \<Rightarrow> camera \<Rightarrow> camera \<times> transition option" where
  "animateCamera tr cam =
     (let progress = tr_progress tr + 0.02 in
      if progress \<le> 1 then
        (cam\<lparr>cam_position :=
               lerpVectors (tr_startPosition tr) (tr_targetPosition tr) (1 - (1 - progress) ^ 3),
             cam_lookAt := Some (tr_target tr)\<rparr>,
         Some (tr\<lparr>tr_progress := progress\<rparr>))
      else (cam, None))"

definition callAnimateCamera :: "transition \<Rightarrow> app_state \<Rightarrow> app_state" where
  "callAnimateCamera tr st =
     (case cameraRef st of
        None \<Rightarrow> st
      | Some cam \<Rightarrow>
          (case animateCamera tr cam of
             (cam', None) \<Rightarrow> st\<lparr>cameraRef := Some cam'\<rparr>
           | (cam', Some tr') \<Rightarrow>
               st\<lparr>cameraRef := Some cam', rafQueue := rafQueue st @ [AnimateCamera tr']\<rparr>))"

text \<open>
  The effect \<^verbatim>\<open>useEffect(() => {...}, [currentSection])\<close> of \<^verbatim>\<open>SceneManager\<close>. It returns
  no cleanup function: a chain of callbacks started by an earlier run stays registered.
\<close>

definition cameraEffect :: "app_state \<Rightarrow> js_error + app_state" where
  "cameraEffect st =
     (case cameraRef st of
        None \<Rightarrow> Inr st
      | Some cam \<Rightarrow>
          (let config = targetConfig (currentSection st) in
           case targetPosition config of
             Inl err \<Rightarrow> Inl err
           | Inr pos \<Rightarrow>
               (case config of
                  Config c \<Rightarrow>
                    Inr (callAnimateCamera
                          \<lparr>tr_startPosition = cam_position cam, tr_targetPosition = pos,
                           tr_target = cfg_target c, tr_progress = 0\<rparr> st)
                | Inherited \<Rightarrow> Inl TypeError
                | Undefined \<Rightarrow> Inl TypeError)))"

section \<open>Navigation state\<close>

datatype panel =
  HeroSection | AboutSection | SkillsMatrix | ExperienceTimeline | ProjectsGallery
  | ContactSection

definition renderSection :: "string \<Rightarrow> panel" where
  "renderSection s =
     (if s = ''home'' then HeroSection
      else if s = ''about'' then AboutSection
      else if s = ''skills'' then SkillsMatrix
      else if s = ''experience'' then ExperienceTimeline
      else if s = ''projects'' then ProjectsGallery
      else if s = ''contact'' then ContactSection
      else HeroSection)"

text \<open>
  Modelled from the spec: \<^verbatim>\<open>useState\<close> and \<^verbatim>\<open>useEffect\<close> are code of React, which is not
  in the repository. The specification has the camera animator start "on a
  NavigationState change" and says that "setting the same section twice is idempotent
  (no duplicate transitions triggered, though the current implementation does not
  special-case this)": it is React that does. A state setter given the current value
  changes nothing and no render follows. Given another value it stores it, the
  components render again, and of the effects those run again whose dependency array
  holds a value that differs from the one of the render before, in hook order:
  the three build effects when \<^verbatim>\<open>[sceneRef.current]\<close> has changed, which it has at the
  first render after the mount and never again, and the camera effect, whose
  dependency \<^verbatim>\<open>[currentSection]\<close> has changed. The other effects have the dependency
  arrays \<^verbatim>\<open>[]\<close> and \<^verbatim>\<open>[onInteraction]\<close> (\<^verbatim>\<open>handleNavigation\<close>, held by \<^verbatim>\<open>useCallback\<close>
  with \<^verbatim>\<open>[]\<close>) and do not run again.
\<close>

definition rerender :: "app_state \<Rightarrow> js_error + app_state" where
  "rerender st =
     cameraEffect (if sceneDep st then st else buildEffects (st\<lparr>sceneDep := True\<rparr>))"

definition setCurrentSection :: "string \<Rightarrow> app_state \<Rightarrow> js_error + app_state" where
  "setCurrentSection s st =
     (if s = currentSection st then Inr st
      else rerender (st\<lparr>currentSection := s\<rparr>))"

text \<open>\<^verbatim>\<open>handleNavigation\<close>, the callback given to the scene and to the dock.\<close>

definition handleNavigation :: "string \<Rightarrow> app_state \<Rightarrow> js_error + app_state" where
  "handleNavigation section st = setCurrentSection section st"

text \<open>
  The click listener. \<^verbatim>\<open>onInteraction\<close> is \<^verbatim>\<open>handleNavigation\<close>, the only value the
  prop is given; a section string is truthy when it is not empty.
\<close>

definition handleClick :: "hits \<Rightarrow> app_state \<Rightarrow> js_error + app_state" where
  "handleClick h st =
     (case cameraRef st of
        None \<Rightarrow> Inr st
      | Some cam \<Rightarrow>
          (case navigationObjects st of
             None \<Rightarrow> Inr st
           | Some objs \<Rightarrow>
               (case intersectObjects h objs of
                  [] \<Rightarrow> Inr st
                | i # _ \<Rightarrow>
                    (let s = ud_section (mesh_userData (objs ! hit_object i)) in
                     if s \<noteq> [] then handleNavigation s st else Inr st))))"

text \<open>
  The pointer-move listener, given \<^verbatim>\<open>event.clientX\<close>, \<^verbatim>\<open>event.clientY\<close>,
  \<^verbatim>\<open>window.innerWidth\<close> and \<^verbatim>\<open>window.innerHeight\<close>. (For a window of width or height 0
  JavaScript divides to \<^verbatim>\<open>Infinity\<close> or \<^verbatim>\<open>NaN\<close>, which the real numbers do not have;
  the pointer coordinates are read by the ray set-up only, which is an input here.)
\<close>

definition handleMouseMove :: "real \<Rightarrow> real \<Rightarrow> real \<Rightarrow> real \<Rightarrow> app_state \<Rightarrow> app_state" where
  "handleMouseMove clientX clientY innerWidth innerHeight st =
     st\<lparr>mouseRef := Vector2 ((clientX / innerWidth) * 2 - 1)
                         (- (clientY / innerHeight) * 2 + 1)\<rparr>"

section \<open>Frame loop\<close>

definition animateParticles :: "real \<Rightarrow> app_state \<Rightarrow> app_state" where
  "animateParticles time st =
     (case particlesRef st of
        None \<Rightarrow> st
      | Some p \<Rightarrow>
          st\<lparr>particlesRef := Some (p\<lparr>particles_rotation :=
                Vector3 (time * 0.02) (time * 0.05) (vz (particles_rotation p))\<rparr>)\<rparr>)"

text \<open>
  The core is written through \<^verbatim>\<open>objectsRef.current.core\<close>, that is, at its index in the
  list of navigation objects (an index of the list whenever both refs are set).
\<close>

definition animateCore :: "real \<Rightarrow> app_state \<Rightarrow> app_state" where
  "animateCore time st =
     (case core st of
        None \<Rightarrow> st
      | Some c \<Rightarrow>
          (case navigationObjects st of
             None \<Rightarrow> st
           | Some objs \<Rightarrow>
               if c < length objs then
                 st\<lparr>navigationObjects := Some (objs[c := (objs ! c)\<lparr>mesh_rotation :=
                       Vector3 (sin (time * 0.3) * 0.1) (time * 0.5)
                         (vz (mesh_rotation (objs ! c)))\<rparr>])\<rparr>
               else st))"

definition rotateObject :: "mesh \<Rightarrow> mesh" where
  "rotateObject obj =
     (if ud_type (mesh_userData obj) \<noteq> ''core'' then
        obj\<lparr>mesh_rotation :=
              Vector3 (vx (mesh_rotation obj) + 0.005) (vy (mesh_rotation obj) + 0.01)
                (vz (mesh_rotation obj))\<rparr>
      else obj)"

definition animateNavigationObjects :: "app_state \<Rightarrow> app_state" where
  "animateNavigationObjects st =
     (case navigationObjects st of
        None \<Rightarrow> st
      | Some objs \<Rightarrow> st\<lparr>navigationObjects := Some (map rotateObject objs)\<rparr>)"

text \<open>\<^verbatim>\<open>obj.scale.lerp(new THREE.Vector3(s, s, s), 0.1)\<close>.\<close>

definition scaleToward :: "real \<Rightarrow> mesh \<Rightarrow> mesh" where
  "scaleToward s obj = obj\<lparr>mesh_scale := lerp (mesh_scale obj) (Vector3 s s s) 0.1\<rparr>"

definition hoverEffects :: "hits \<Rightarrow> app_state \<Rightarrow> app_state" where
  "hoverEffects h st =
     (case navigationObjects st of
        None \<Rightarrow> st
      | Some objs \<Rightarrow>
          (case cameraRef st of
             None \<Rightarrow> st
           | Some cam \<Rightarrow>
               (let intersects = intersectObjects h objs;
                    objs' = map (scaleToward 1) objs
                in case intersects of
                     [] \<Rightarrow> st\<lparr>navigationObjects := Some objs'\<rparr>
                   | i # _ \<Rightarrow>
                       st\<lparr>navigationObjects :=
                            Some (objs'[hit_object i :=
                                    scaleToward 1.2 (objs' ! hit_object i)])\<rparr>)))"

definition animateLights :: "real \<Rightarrow> app_state \<Rightarrow> app_state" where
  "animateLights time st =
     (case lightsRef st of
        None \<Rightarrow> st
      | Some l \<Rightarrow>
          st\<lparr>lightsRef := Some (l\<lparr>keyLight_position :=
                  Vector3 (sin (time * 0.5) * 10) (vy (keyLight_position l))
                    (cos (time * 0.5) * 10),
                rimLight_intensity := 0.8 + sin (time * 2) * 0.4\<rparr>)\<rparr>)"

definition render :: "app_state \<Rightarrow> app_state" where
  "render st =
     (case cameraRef st of
        None \<Rightarrow> st
      | Some cam \<Rightarrow> st\<lparr>rendered := rendered st @ [cam]\<rparr>)"

text \<open>
  One call of \<^verbatim>\<open>animate\<close>; \<open>now\<close> is the value of \<^verbatim>\<open>Date.now()\<close>, in milliseconds. The
  callback registers itself for the next frame before anything else.
\<close>

definition animate :: "hits \<Rightarrow> real \<Rightarrow> app_state \<Rightarrow> app_state" where
  "animate h now st =
     (let time = now * 0.001 in
      render (animateLights time (hoverEffects h (animateNavigationObjects
        (animateCore time (animateParticles time
          (st\<lparr>rafQueue := rafQueue st @ [Animate]\<rparr>)))))))"

text \<open>
  One animation frame: the browser runs the callbacks registered since the last frame,
  in the order of their registration; what they register waits for the next frame.
\<close>

fun runCallback :: "hits \<Rightarrow> real \<Rightarrow> callback \<Rightarrow> app_state \<Rightarrow> app_state" where
  "runCallback h now (AnimateCamera tr) st = callAnimateCamera tr st"
| "runCallback h now Animate st = animate h now st"

definition frame :: "hits \<Rightarrow> real \<Rightarrow> app_state \<Rightarrow> app_state" where
  "frame h now st = fold (runCallback h now) (rafQueue st) (st\<lparr>rafQueue := []\<rparr>)"

section \<open>Mounting and events\<close>

text \<open>
  The first commit of \<^verbatim>\<open>SceneManager\<close>. \<^verbatim>\<open>Portfolio3D\<close> starts with \<^verbatim>\<open>useState('home')\<close> and
  shows the scene and the dock once \<^verbatim>\<open>isLoading\<close> is false, so the section is still
  \<^verbatim>\<open>home\<close> then; the effect of \<^verbatim>\<open>useThreeScene\<close> puts the camera at the home position;
  then the three build effects run.
\<close>

definition initialState :: app_state where
  "initialState =
     \<lparr>currentSection = ''home'',
      cameraRef = Some \<lparr>cam_position = Vector3 0 0 12, cam_lookAt = None\<rparr>,
      mouseRef = Vector2 0 0,
      lightsRef = None,
      particlesRef = None,
      navigationObjects = None,
      core = None,
      rafQueue = [],
      rendered = [],
      sceneDep = False\<rparr>"

definition sceneState :: app_state where
  "sceneState = buildEffects initialState"

text \<open>
  The last two effects of the first commit: the camera effect and the effect that
  starts the frame loop with a first call of \<^verbatim>\<open>animate\<close>.
\<close>

definition mount :: "hits \<Rightarrow> real \<Rightarrow> js_error + app_state" where
  "mount h now =
     (case cameraEffect sceneState of
        Inl err \<Rightarrow> Inl err
      | Inr st \<Rightarrow> Inr (animate h now st))"

datatype event =
  Frame hits real | Click hits | Dock string | MouseMove real real real real

fun step :: "event \<Rightarrow> app_state \<Rightarrow> js_error + app_state" where
  "step (Frame h now) st = Inr (frame h now st)"
| "step (Click h) st = handleClick h st"
| "step (Dock s) st = handleNavigation s st"
| "step (MouseMove clientX clientY innerWidth innerHeight) st =
     Inr (handleMouseMove clientX clientY innerWidth innerHeight st)"

fun run :: "event list \<Rightarrow> app_state \<Rightarrow> js_error + app_state" where
  "run [] st = Inr st"
| "run (e # es) st = (case step e st of Inl err \<Rightarrow> Inl err | Inr st' \<Rightarrow> run es st')"

section \<open>Vocabulary of the properties\<close>

text \<open>
  The facts about the scene that hold from the first commit on: the refs are set, the
  core is the first navigation object, the \<^verbatim>\<open>userData\<close> of every navigation object is
  the one it was built with, and the components that no code writes (the y of the key
  light, the z of the rotation of the particles and of the core) have their initial
  values.
\<close>

definition sceneInv :: "app_state \<Rightarrow> bool" where
  "sceneInv st \<longleftrightarrow>
     (\<exists>cam l p objs. cameraRef st = Some cam \<and> lightsRef st = Some l
        \<and> particlesRef st = Some p \<and> navigationObjects st = Some objs \<and> core st = Some 0
        \<and> vy (keyLight_position l) = 10 \<and> vz (particles_rotation p) = 0
        \<and> map mesh_userData objs = map mesh_userData buildNavigationObjects
        \<and> vz (mesh_rotation (objs ! 0)) = 0)"

text \<open>Moreover the frame loop is registered exactly once for the next frame.\<close>

definition mounted :: "app_state \<Rightarrow> bool" where
  "mounted st \<longleftrightarrow> sceneInv st \<and> filter (\<lambda>c. c = Animate) (rafQueue st) = [Animate]"

text \<open>The object of index \<open>k\<close> is the one \<^verbatim>\<open>intersects[0].object\<close> denotes.\<close>

definition hovered :: "hits \<Rightarrow> mesh list \<Rightarrow> nat \<Rightarrow> bool" where
  "hovered h objs k =
     (case intersectObjects h objs of [] \<Rightarrow> False | i # _ \<Rightarrow> hit_object i = k)"

text \<open>The two assignments to \<^verbatim>\<open>core.rotation\<close> in \<^verbatim>\<open>animate\<close>, on one mesh.\<close>

definition coreRotation :: "real \<Rightarrow> mesh \<Rightarrow> mesh" where
  "coreRotation time obj =
     obj\<lparr>mesh_rotation := Vector3 (sin (time * 0.3) * 0.1) (time * 0.5) (vz (mesh_rotation obj))\<rparr>"

text \<open>
  The decorative state: the rotation of the particle field, the rotation of the core,
  the position of the key light and the intensity of the rim light.
\<close>

record decoration =
  dec_particles_rotation :: Vector3
  dec_core_rotation :: Vector3
  dec_keyLight_position :: Vector3
  dec_rimLight_intensity :: real

definition decorativeState :: "app_state \<Rightarrow> decoration option" where
  "decorativeState st =
     (case particlesRef st of None \<Rightarrow> None | Some p \<Rightarrow>
      case lightsRef st of None \<Rightarrow> None | Some l \<Rightarrow>
      case navigationObjects st of None \<Rightarrow> None | Some objs \<Rightarrow>
      case core st of None \<Rightarrow> None | Some c \<Rightarrow>
        if c < length objs then
          Some \<lparr>dec_particles_rotation = particles_rotation p,
                dec_core_rotation = mesh_rotation (objs ! c),
                dec_keyLight_position = keyLight_position l,
                dec_rimLight_intensity = rimLight_intensity l\<rparr>
        else None)"

text \<open>The decorative state as a function of the clock alone.\<close>

definition decorativeAt :: "real \<Rightarrow> decoration" where
  "decorativeAt now =
     (let time = now * 0.001 in
      \<lparr>dec_particles_rotation = Vector3 (time * 0.02) (time * 0.05) 0,
       dec_core_rotation = Vector3 (sin (time * 0.3) * 0.1) (time * 0.5) 0,
       dec_keyLight_position = Vector3 (sin (time * 0.5) * 10) 10 (cos (time * 0.5) * 10),
       dec_rimLight_intensity = 0.8 + sin (time * 2) * 0.4\<rparr>)"


text \<open>Euler angles after \<open>n\<close> increments of 0.005 about x and 0.01 about y.\<close>

definition rotated :: "nat \<Rightarrow> Vector3 \<Rightarrow> Vector3" where
  "rotated n r = Vector3 (vx r + real n * 0.005) (vy r + real n * 0.01) (vz r)"

text \<open>A ray that meets no object, and a ray that meets the core only.\<close>

definition noHits :: hits where
  "noHits k = []"

definition hoverCore :: hits where
  "hoverCore k = (if k = 0 then [10] else [])"

text \<open>The sections that a navigation object is tagged with.\<close>

definition clickableSections :: "string list" where
  "clickableSections = [''about'', ''skills'', ''experience'', ''projects'']"

text \<open>
  An event whose section, if it comes from the dock, is no property name of
  \<^verbatim>\<open>Object.prototype\<close>: the six sections of the dock are such.
\<close>

definition knownEvent :: "event \<Rightarrow> bool" where
  "knownEvent e = (case e of Dock s \<Rightarrow> s \<notin> set Object_prototype | _ \<Rightarrow> True)"

text \<open>
  The state in which the camera effect runs after the section has changed to \<open>s\<close>:
  rebuilt by the build effects at the first change, as it was at every later one.
\<close>

definition afterBuild :: "string \<Rightarrow> app_state \<Rightarrow> app_state" where
  "afterBuild s st =
     (if sceneDep st then st\<lparr>currentSection := s\<rparr>
      else buildEffects (st\<lparr>currentSection := s, sceneDep := True\<rparr>))"

section \<open>Facts about the model\<close>

text \<open>
  The scene is built as nine navigation objects, the core first.
\<close>

lemma buildNavigationObjects_list:
  "buildNavigationObjects =
     [coreMesh, skillMesh (Vector3 (- 5) 2 0) ''embedded'', skillMesh (Vector3 5 2 0) ''ai'',
      skillMesh (Vector3 0 4 (- 3)) ''software'', skillMesh (Vector3 0 (- 2) 3) ''hardware'',
      nodeMesh (experienceData ! 0), nodeMesh (experienceData ! 1),
      nodeMesh (experienceData ! 2), projectsRing]"
  by (simp add: buildNavigationObjects_def skillsPositions_def skillsLabels_def
      experienceData_def)

lemma length_buildNavigationObjects: "length buildNavigationObjects = 9"
  by (simp add: buildNavigationObjects_list)

subsection \<open>What each function leaves unchanged\<close>

text \<open>
  Every function of the model writes a few fields of the state only.
\<close>

lemma callAnimateCamera_fields [simp]:
  "sceneDep (callAnimateCamera tr st) = sceneDep st"
  "currentSection (callAnimateCamera tr st) = currentSection st"
  "mouseRef (callAnimateCamera tr st) = mouseRef st"
  "lightsRef (callAnimateCamera tr st) = lightsRef st"
  "particlesRef (callAnimateCamera tr st) = particlesRef st"
  "navigationObjects (callAnimateCamera tr st) = navigationObjects st"
  "core (callAnimateCamera tr st) = core st"
  "rendered (callAnimateCamera tr st) = rendered st"
  by (simp_all add: callAnimateCamera_def split: option.splits prod.splits)

lemma callAnimateCamera_camera:
  "cameraRef st = Some cam \<Longrightarrow> \<exists>cam'. cameraRef (callAnimateCamera tr st) = Some cam'"
  by (simp add: callAnimateCamera_def split: option.splits prod.splits)

lemma callAnimateCamera_queue:
  "filter (\<lambda>c. c = Animate) (rafQueue (callAnimateCamera tr st))
     = filter (\<lambda>c. c = Animate) (rafQueue st)"
  by (simp add: callAnimateCamera_def split: option.splits prod.splits)

lemma animateParticles_fields [simp]:
  "sceneDep (animateParticles t st) = sceneDep st"
  "currentSection (animateParticles t st) = currentSection st"
  "mouseRef (animateParticles t st) = mouseRef st"
  "cameraRef (animateParticles t st) = cameraRef st"
  "lightsRef (animateParticles t st) = lightsRef st"
  "navigationObjects (animateParticles t st) = navigationObjects st"
  "core (animateParticles t st) = core st"
  "rafQueue (animateParticles t st) = rafQueue st"
  "rendered (animateParticles t st) = rendered st"
  by (simp_all add: animateParticles_def split: option.splits)

lemma animateCore_fields [simp]:
  "sceneDep (animateCore t st) = sceneDep st"
  "currentSection (animateCore t st) = currentSection st"
  "mouseRef (animateCore t st) = mouseRef st"
  "cameraRef (animateCore t st) = cameraRef st"
  "lightsRef (animateCore t st) = lightsRef st"
  "particlesRef (animateCore t st) = particlesRef st"
  "core (animateCore t st) = core st"
  "rafQueue (animateCore t st) = rafQueue st"
  "rendered (animateCore t st) = rendered st"
  by (simp_all add: animateCore_def split: option.splits)

lemma animateNavigationObjects_fields [simp]:
  "sceneDep (animateNavigationObjects st) = sceneDep st"
  "currentSection (animateNavigationObjects st) = currentSection st"
  "mouseRef (animateNavigationObjects st) = mouseRef st"
  "cameraRef (animateNavigationObjects st) = cameraRef st"
  "lightsRef (animateNavigationObjects st) = lightsRef st"
  "particlesRef (animateNavigationObjects st) = particlesRef st"
  "core (animateNavigationObjects st) = core st"
  "rafQueue (animateNavigationObjects st) = rafQueue st"
  "rendered (animateNavigationObjects st) = rendered st"
  by (simp_all add: animateNavigationObjects_def split: option.splits)

lemma hoverEffects_fields [simp]:
  "sceneDep (hoverEffects h st) = sceneDep st"
  "currentSection (hoverEffects h st) = currentSection st"
  "mouseRef (hoverEffects h st) = mouseRef st"
  "cameraRef (hoverEffects h st) = cameraRef st"
  "lightsRef (hoverEffects h st) = lightsRef st"
  "particlesRef (hoverEffects h st) = particlesRef st"
  "core (hoverEffects h st) = core st"
  "rafQueue (hoverEffects h st) = rafQueue st"
  "rendered (hoverEffects h st) = rendered st"
  by (simp_all add: hoverEffects_def Let_def split: option.splits list.splits)

lemma animateLights_fields [simp]:
  "sceneDep (animateLights t st) = sceneDep st"
  "currentSection (animateLights t st) = currentSection st"
  "mouseRef (animateLights t st) = mouseRef st"
  "cameraRef (animateLights t st) = cameraRef st"
  "particlesRef (animateLights t st) = particlesRef st"
  "navigationObjects (animateLights t st) = navigationObjects st"
  "core (animateLights t st) = core st"
  "rafQueue (animateLights t st) = rafQueue st"
  "rendered (animateLights t st) = rendered st"
  by (simp_all add: animateLights_def split: option.splits)

lemma render_fields [simp]:
  "sceneDep (render st) = sceneDep st"
  "currentSection (render st) = currentSection st"
  "mouseRef (render st) = mouseRef st"
  "cameraRef (render st) = cameraRef st"
  "lightsRef (render st) = lightsRef st"
  "particlesRef (render st) = particlesRef st"
  "navigationObjects (render st) = navigationObjects st"
  "core (render st) = core st"
  "rafQueue (render st) = rafQueue st"
  by (simp_all add: render_def split: option.splits)

lemma animate_fields [simp]:
  "sceneDep (animate h now st) = sceneDep st"
  "currentSection (animate h now st) = currentSection st"
  "mouseRef (animate h now st) = mouseRef st"
  "cameraRef (animate h now st) = cameraRef st"
  "core (animate h now st) = core st"
  "rafQueue (animate h now st) = rafQueue st @ [Animate]"
  by (simp_all add: animate_def Let_def)

subsection \<open>One call of the frame loop\<close>

text \<open>
  What one call of animate does to the particles, the lights, the rendered
  cameras and, object by object, to the navigation objects.
\<close>

lemma animate_particles:
  "particlesRef st = Some p \<Longrightarrow>
   particlesRef (animate h now st) =
     Some (p\<lparr>particles_rotation :=
       Vector3 (now * 0.001 * 0.02) (now * 0.001 * 0.05) (vz (particles_rotation p))\<rparr>)"
  by (simp add: animate_def Let_def animateParticles_def)

lemma animate_lights:
  "lightsRef st = Some l \<Longrightarrow>
   lightsRef (animate h now st) =
     Some (l\<lparr>keyLight_position :=
              Vector3 (sin (now * 0.001 * 0.5) * 10) (vy (keyLight_position l))
                (cos (now * 0.001 * 0.5) * 10),
            rimLight_intensity := 0.8 + sin (now * 0.001 * 2) * 0.4\<rparr>)"
  by (simp add: animate_def Let_def animateLights_def)

lemma animate_rendered:
  "cameraRef st = Some cam \<Longrightarrow> rendered (animate h now st) = rendered st @ [cam]"
  by (simp add: animate_def Let_def render_def)

lemma hoverEffects_objects:
  assumes "navigationObjects st = Some objs" "cameraRef st = Some cam"
  shows "\<exists>objs'. navigationObjects (hoverEffects h st) = Some objs'
           \<and> length objs' = length objs
           \<and> (\<forall>k<length objs. objs' ! k =
                 (if hovered h objs k then scaleToward 1.2 (scaleToward 1 (objs ! k))
                  else scaleToward 1 (objs ! k)))"
  using assms
  by (auto simp: hoverEffects_def Let_def hovered_def nth_list_update split: list.splits)

lemma hovered_map [simp]: "hovered h (map f objs) k = hovered h objs k"
  by (simp add: hovered_def intersectObjects_def)

lemma hovered_update [simp]: "hovered h (objs[i := v]) k = hovered h objs k"
  by (simp add: hovered_def intersectObjects_def)

lemma animate_objects:
  assumes "navigationObjects st = Some objs" "cameraRef st = Some cam" "core st = Some c"
    "c < length objs"
  shows "\<exists>objs'. navigationObjects (animate h now st) = Some objs'
           \<and> length objs' = length objs
           \<and> (\<forall>k<length objs. objs' ! k =
                 (let obj = rotateObject (if k = c then coreRotation (now * 0.001) (objs ! k)
                                          else objs ! k)
                  in if hovered h objs k then scaleToward 1.2 (scaleToward 1 obj)
                     else scaleToward 1 obj))"
proof -
  let ?st1 = "animateNavigationObjects (animateCore (now * 0.001)
                 (animateParticles (now * 0.001) (st\<lparr>rafQueue := rafQueue st @ [Animate]\<rparr>)))"
  let ?objs1 = "map rotateObject (objs[c := coreRotation (now * 0.001) (objs ! c)])"
  have n1: "navigationObjects ?st1 = Some ?objs1"
    using assms by (simp add: animateNavigationObjects_def animateCore_def coreRotation_def)
  have c1: "cameraRef ?st1 = Some cam" using assms by simp
  from hoverEffects_objects[OF n1 c1, of h] obtain objs' where
    o: "navigationObjects (hoverEffects h ?st1) = Some objs'" "length objs' = length ?objs1"
      "\<forall>k<length ?objs1. objs' ! k =
         (if hovered h ?objs1 k then scaleToward 1.2 (scaleToward 1 (?objs1 ! k))
          else scaleToward 1 (?objs1 ! k))"
    by blast
  have "navigationObjects (animate h now st) = Some objs'"
    using o(1) by (simp add: animate_def Let_def)
  moreover have "length objs' = length objs" using o(2) by simp
  moreover have "\<forall>k<length objs. objs' ! k =
                 (let obj = rotateObject (if k = c then coreRotation (now * 0.001) (objs ! k)
                                          else objs ! k)
                  in if hovered h objs k then scaleToward 1.2 (scaleToward 1 obj)
                     else scaleToward 1 obj)"
    using o(3) by (simp add: Let_def nth_list_update)
  ultimately show ?thesis by blast
qed

lemma scaleToward_fields [simp]:
  "mesh_userData (scaleToward s obj) = mesh_userData obj"
  "mesh_rotation (scaleToward s obj) = mesh_rotation obj"
  "mesh_position (scaleToward s obj) = mesh_position obj"
  "mesh_geometry (scaleToward s obj) = mesh_geometry obj"
  "mesh_scale (scaleToward s obj) = lerp (mesh_scale obj) (Vector3 s s s) 0.1"
  by (simp_all add: scaleToward_def)

lemma rotateObject_fields [simp]:
  "mesh_userData (rotateObject obj) = mesh_userData obj"
  "mesh_scale (rotateObject obj) = mesh_scale obj"
  "vz (mesh_rotation (rotateObject obj)) = vz (mesh_rotation obj)"
  by (simp_all add: rotateObject_def)

lemma coreRotation_fields [simp]:
  "mesh_userData (coreRotation t obj) = mesh_userData obj"
  "mesh_scale (coreRotation t obj) = mesh_scale obj"
  "vz (mesh_rotation (coreRotation t obj)) = vz (mesh_rotation obj)"
  by (simp_all add: coreRotation_def)

subsection \<open>Invariants of the mounted application\<close>

text \<open>
  Mounting establishes the invariants and every event keeps them.
\<close>

lemma sceneInv_animate:
  assumes "sceneInv st"
  shows "sceneInv (animate h now st)"
proof -
  from assms obtain cam l p objs where
    s: "cameraRef st = Some cam" "lightsRef st = Some l" "particlesRef st = Some p"
      "navigationObjects st = Some objs" "core st = Some 0"
      "vy (keyLight_position l) = 10" "vz (particles_rotation p) = 0"
      "map mesh_userData objs = map mesh_userData buildNavigationObjects"
      "vz (mesh_rotation (objs ! 0)) = 0"
    unfolding sceneInv_def by blast
  from s(8) have len: "length objs = 9"
    using length_buildNavigationObjects by (metis length_map)
  then have c: "0 < length objs" by simp
  from animate_objects[OF s(4) s(1) s(5) c, of h now] obtain objs' where
    o: "navigationObjects (animate h now st) = Some objs'" "length objs' = length objs"
      "\<forall>k<length objs. objs' ! k =
                 (let obj = rotateObject (if k = 0 then coreRotation (now * 0.001) (objs ! k)
                                          else objs ! k)
                  in if hovered h objs k then scaleToward 1.2 (scaleToward 1 obj)
                     else scaleToward 1 obj)"
    by blast
  have ud: "mesh_userData (objs' ! k) = mesh_userData (objs ! k)" if "k < length objs" for k
    using o(3) that by (simp add: Let_def)
  have "map mesh_userData objs' = map mesh_userData objs"
    by (rule nth_equalityI) (simp_all add: o(2) ud)
  moreover have "vz (mesh_rotation (objs' ! 0)) = 0"
    using o(3) c s(9) by (simp add: Let_def)
  ultimately show ?thesis
    unfolding sceneInv_def
    using s o(1) by (simp add: animate_particles animate_lights)
qed

lemma sceneInv_callAnimateCamera: "sceneInv st \<Longrightarrow> sceneInv (callAnimateCamera tr st)"
  unfolding sceneInv_def using callAnimateCamera_camera by fastforce

lemma cameraEffect_Inr:
  assumes "cameraEffect st = Inr st'"
  shows "st' = st \<and> cameraRef st = None
         \<or> (\<exists>tr. st' = callAnimateCamera tr st \<and> cameraRef st \<noteq> None)"
  using assms
  by (auto simp: cameraEffect_def Let_def split: option.splits sum.splits js_value.splits)

lemma sceneInv_cameraEffect: "sceneInv st \<Longrightarrow> cameraEffect st = Inr st' \<Longrightarrow> sceneInv st'"
  using cameraEffect_Inr sceneInv_callAnimateCamera by blast

lemma queue_cameraEffect:
  "cameraEffect st = Inr st' \<Longrightarrow>
   filter (\<lambda>c. c = Animate) (rafQueue st') = filter (\<lambda>c. c = Animate) (rafQueue st)"
  using cameraEffect_Inr callAnimateCamera_queue by metis

lemma sceneInv_currentSection [simp]: "sceneInv (st\<lparr>currentSection := s\<rparr>) = sceneInv st"
  by (simp add: sceneInv_def)

lemma sceneInv_mouseRef [simp]: "sceneInv (st\<lparr>mouseRef := p\<rparr>) = sceneInv st"
  by (simp add: sceneInv_def)

lemma sceneInv_rafQueue [simp]: "sceneInv (st\<lparr>rafQueue := q\<rparr>) = sceneInv st"
  by (simp add: sceneInv_def)

lemma sceneState_eq:
  "sceneState =
     \<lparr>currentSection = ''home'',
      cameraRef = Some \<lparr>cam_position = Vector3 0 0 12, cam_lookAt = None\<rparr>,
      mouseRef = Vector2 0 0,
      lightsRef = Some buildLights,
      particlesRef = Some \<lparr>particles_rotation = Vector3 0 0 0\<rparr>,
      navigationObjects = Some buildNavigationObjects,
      core = Some 0,
      rafQueue = [],
      rendered = [],
      sceneDep = False\<rparr>"
  by (simp add: sceneState_def buildEffects_def initialState_def)

lemma sceneInv_buildEffects: "cameraRef st = Some cam \<Longrightarrow> sceneInv (buildEffects st)"
  by (simp add: sceneInv_def buildEffects_def buildLights_def buildNavigationObjects_list
      coreMesh_def)

lemma afterBuild_fields [simp]:
  "currentSection (afterBuild s st) = s"
  "cameraRef (afterBuild s st) = cameraRef st"
  "mouseRef (afterBuild s st) = mouseRef st"
  "rafQueue (afterBuild s st) = rafQueue st"
  "rendered (afterBuild s st) = rendered st"
  "sceneDep (afterBuild s st)"
  by (simp_all add: afterBuild_def buildEffects_def)


lemma sceneInv_afterBuild: "sceneInv st \<Longrightarrow> sceneInv (afterBuild s st)"
proof -
  assume i: "sceneInv st"
  then obtain cam where "cameraRef st = Some cam" by (auto simp: sceneInv_def)
  then have "sceneInv (buildEffects (st\<lparr>currentSection := s, sceneDep := True\<rparr>))"
    using sceneInv_buildEffects[of "st\<lparr>currentSection := s, sceneDep := True\<rparr>" cam] by simp
  with i show ?thesis by (simp add: afterBuild_def)
qed

lemma handleNavigation_unfold:
  "handleNavigation s st =
     (if s = currentSection st then Inr st else cameraEffect (afterBuild s st))"
  by (simp add: handleNavigation_def setCurrentSection_def rerender_def afterBuild_def)

lemma mounted_handleNavigation:
  "mounted st \<Longrightarrow> handleNavigation s st = Inr st' \<Longrightarrow> mounted st'"
  unfolding mounted_def handleNavigation_unfold
  using sceneInv_cameraEffect[of "afterBuild s st" st']
    queue_cameraEffect[of "afterBuild s st" st'] sceneInv_afterBuild[of st s]
  by (auto split: if_splits)

lemma handleClick_cases:
  "handleClick h st = Inr st \<or>
   (\<exists>cam objs i rest. cameraRef st = Some cam \<and> navigationObjects st = Some objs
      \<and> intersectObjects h objs = i # rest
      \<and> ud_section (mesh_userData (objs ! hit_object i)) \<noteq> []
      \<and> handleClick h st = handleNavigation (ud_section (mesh_userData (objs ! hit_object i))) st)"
  by (auto simp: handleClick_def Let_def split: option.splits list.splits)

lemma mounted_handleClick:
  "mounted st \<Longrightarrow> handleClick h st = Inr st' \<Longrightarrow> mounted st'"
  using handleClick_cases[of h st] mounted_handleNavigation by auto

lemma fold_callbacks:
  assumes "sceneInv st"
  shows "sceneInv (fold (runCallback h now) q st)
         \<and> filter (\<lambda>c. c = Animate) (rafQueue (fold (runCallback h now) q st))
             = filter (\<lambda>c. c = Animate) (rafQueue st) @ filter (\<lambda>c. c = Animate) q"
  using assms
proof (induction q arbitrary: st)
  case Nil
  then show ?case by simp
next
  case (Cons cb q)
  show ?case
  proof (cases cb)
    case (AnimateCamera tr)
    with Cons.IH[of "callAnimateCamera tr st"] Cons.prems show ?thesis
      by (simp add: sceneInv_callAnimateCamera callAnimateCamera_queue)
  next
    case Animate
    with Cons.IH[of "animate h now st"] Cons.prems show ?thesis
      by (simp add: sceneInv_animate)
  qed
qed

lemma mounted_frame: "mounted st \<Longrightarrow> mounted (frame h now st)"
  unfolding mounted_def frame_def
  using fold_callbacks[of "st\<lparr>rafQueue := []\<rparr>" h now "rafQueue st"] by simp

lemma mounted_step: "mounted st \<Longrightarrow> step e st = Inr st' \<Longrightarrow> mounted st'"
proof (cases e)
  case (Frame h now)
  assume "mounted st" "step e st = Inr st'"
  with Frame show ?thesis using mounted_frame by auto
next
  case (Click h)
  assume "mounted st" "step e st = Inr st'"
  with Click show ?thesis using mounted_handleClick by auto
next
  case (Dock s)
  assume "mounted st" "step e st = Inr st'"
  with Dock show ?thesis using mounted_handleNavigation by auto
next
  case (MouseMove x y w h)
  assume "mounted st" "step e st = Inr st'"
  with MouseMove show ?thesis by (auto simp: handleMouseMove_def mounted_def)
qed

lemma mounted_run: "mounted st \<Longrightarrow> run evs st = Inr st' \<Longrightarrow> mounted st'"
proof (induction evs arbitrary: st)
  case Nil
  then show ?case by simp
next
  case (Cons e evs)
  then show ?case using mounted_step by (auto split: sum.splits)
qed

lemma sceneInv_sceneState: "sceneInv sceneState"
  by (simp add: sceneInv_def sceneState_eq buildLights_def buildNavigationObjects_list
      coreMesh_def)

lemma mounted_mount: "mount h now = Inr st \<Longrightarrow> mounted st"
proof -
  assume m: "mount h now = Inr st"
  then obtain st1 where c: "cameraEffect sceneState = Inr st1" and st: "st = animate h now st1"
    by (auto simp: mount_def split: sum.splits)
  have "sceneInv st1" using sceneInv_cameraEffect[OF sceneInv_sceneState c] .
  moreover have "filter (\<lambda>c. c = Animate) (rafQueue st1) = []"
    using queue_cameraEffect[OF c] by (simp add: sceneState_eq)
  ultimately show ?thesis unfolding mounted_def st by (simp add: sceneInv_animate)
qed

lemma mount_total: "\<exists>st. mount h now = Inr st"
  by (simp add: mount_def cameraEffect_def sceneState_eq targetConfig_def js_get_def
      CAMERA_POSITIONS_def targetPosition_def Let_def)

subsection \<open>The decorative state\<close>

text \<open>
  After a call of animate the decorative state is that of the clock value, and
  the callbacks of camera transitions do not touch it.
\<close>

lemma core_is_first:
  assumes "map mesh_userData objs = map mesh_userData buildNavigationObjects"
  shows "length objs = 9" "ud_type (mesh_userData (objs ! 0)) = ''core''"
    "k < 9 \<Longrightarrow> ud_type (mesh_userData (objs ! k)) \<noteq> ''core'' \<Longrightarrow> k \<noteq> 0"
proof -
  show len: "length objs = 9"
    using assms length_buildNavigationObjects by (metis length_map)
  have "mesh_userData (objs ! 0) = mesh_userData (buildNavigationObjects ! 0)"
    using assms len by (metis length_map nth_map zero_less_numeral)
  then show c: "ud_type (mesh_userData (objs ! 0)) = ''core''"
    by (simp add: buildNavigationObjects_list coreMesh_def)
  show "k < 9 \<Longrightarrow> ud_type (mesh_userData (objs ! k)) \<noteq> ''core'' \<Longrightarrow> k \<noteq> 0"
    using c by (cases "k = 0") auto
qed

lemma decorative_animate:
  assumes "sceneInv st"
  shows "decorativeState (animate h now st) = Some (decorativeAt now)"
proof -
  from assms obtain cam l p objs where
    s: "cameraRef st = Some cam" "lightsRef st = Some l" "particlesRef st = Some p"
      "navigationObjects st = Some objs" "core st = Some 0"
      "vy (keyLight_position l) = 10" "vz (particles_rotation p) = 0"
      "map mesh_userData objs = map mesh_userData buildNavigationObjects"
      "vz (mesh_rotation (objs ! 0)) = 0"
    unfolding sceneInv_def by blast
  have c: "0 < length objs" using core_is_first(1)[OF s(8)] by simp
  from animate_objects[OF s(4) s(1) s(5) c, of h now] obtain objs' where
    o: "navigationObjects (animate h now st) = Some objs'" "length objs' = length objs"
      "\<forall>k<length objs. objs' ! k =
                 (let obj = rotateObject (if k = 0 then coreRotation (now * 0.001) (objs ! k)
                                          else objs ! k)
                  in if hovered h objs k then scaleToward 1.2 (scaleToward 1 obj)
                     else scaleToward 1 obj)"
    by blast
  have "mesh_rotation (rotateObject (coreRotation (now * 0.001) (objs ! 0)))
          = Vector3 (sin (now * 0.001 * 0.3) * 0.1) (now * 0.001 * 0.5) 0"
    using core_is_first(2)[OF s(8)] s(9) by (simp add: rotateObject_def coreRotation_def)
  then have r: "mesh_rotation (objs' ! 0)
          = Vector3 (sin (now * 0.001 * 0.3) * 0.1) (now * 0.001 * 0.5) 0"
    using o(3) c by (simp add: Let_def)
  show ?thesis
    using s o(1,2) c r
    by (simp add: decorativeState_def decorativeAt_def animate_particles animate_lights Let_def)
qed

lemma decorative_callAnimateCamera [simp]:
  "decorativeState (callAnimateCamera tr st) = decorativeState st"
  by (simp add: decorativeState_def split: option.splits)

lemma decorative_fold:
  assumes "sceneInv st" "Animate \<in> set q \<or> decorativeState st = Some (decorativeAt now)"
  shows "decorativeState (fold (runCallback h now) q st) = Some (decorativeAt now)"
  using assms
proof (induction q arbitrary: st)
  case Nil
  then show ?case by simp
next
  case (Cons cb q)
  show ?case
  proof (cases cb)
    case (AnimateCamera tr)
    with Cons.prems Cons.IH[of "callAnimateCamera tr st"] show ?thesis
      by (auto simp: sceneInv_callAnimateCamera)
  next
    case Animate
    with Cons.prems Cons.IH[of "animate h now st"] show ?thesis
      by (simp add: sceneInv_animate decorative_animate)
  qed
qed

lemma decorative_frame:
  assumes "mounted st"
  shows "decorativeState (frame h now st) = Some (decorativeAt now)"
proof -
  from assms have "Animate \<in> set (filter (\<lambda>c. c = Animate) (rafQueue st))"
    unfolding mounted_def by simp
  then have "Animate \<in> set (rafQueue st)" by simp
  then show ?thesis
    using assms decorative_fold[of "st\<lparr>rafQueue := []\<rparr>" "rafQueue st" now h]
    by (simp add: frame_def mounted_def)
qed

subsection \<open>The first intersection\<close>

text \<open>
  The intersections are the hits of the objects of the list, in ascending order
  of distance.
\<close>

lemma set_intersectObjects:
  "set (intersectObjects h objs)
     = {\<lparr>hit_distance = d, hit_object = k\<rparr> | d k. k < length objs \<and> d \<in> set (h k)}"
  by (auto simp: intersectObjects_def)

lemma sorted_intersectObjects: "sorted (map hit_distance (intersectObjects h objs))"
  by (simp add: intersectObjects_def)

lemma intersectObjects_empty:
  "intersectObjects h objs = [] \<longleftrightarrow> (\<forall>k<length objs. h k = [])"
proof -
  have a: "sort_key f xs = [] \<longleftrightarrow> xs = []" for f :: "intersection \<Rightarrow> real" and xs
    using length_sort[of f xs] by (metis length_0_conv)
  show ?thesis by (auto simp: intersectObjects_def a)
qed

lemma intersectObjects_first:
  assumes "intersectObjects h objs = i # rest"
  shows "hit_object i < length objs" "hit_distance i \<in> set (h (hit_object i))"
    "k < length objs \<Longrightarrow> d \<in> set (h k) \<Longrightarrow> hit_distance i \<le> d"
proof -
  have "i \<in> set (intersectObjects h objs)" using assms by simp
  then show "hit_object i < length objs" "hit_distance i \<in> set (h (hit_object i))"
    unfolding set_intersectObjects by auto
  assume "k < length objs" "d \<in> set (h k)"
  then have "\<lparr>hit_distance = d, hit_object = k\<rparr> \<in> set (intersectObjects h objs)"
    unfolding set_intersectObjects by blast
  then have "hit_distance \<lparr>hit_distance = d, hit_object = k\<rparr>
               \<in> hit_distance ` set (i # rest)"
    unfolding assms by (rule imageI)
  then have "d \<in> set (map hit_distance (i # rest))" by simp
  moreover have "sorted (map hit_distance (i # rest))"
    using sorted_intersectObjects[of h objs] assms by simp
  ultimately show "hit_distance i \<le> d" by auto
qed

subsection \<open>Navigation on the sections in use\<close>

text \<open>
  Navigation succeeds on every section that is no inherited key, and the
  sections of the objects built are such.
\<close>

lemma targetConfig_cases:
  "targetConfig s = Inherited \<and> s \<in> set Object_prototype
   \<or> (\<exists>c. targetConfig s = Config c)"
  by (simp add: targetConfig_def js_get_def CAMERA_POSITIONS_def split: option.splits)

lemma cameraEffect_total:
  "currentSection st \<notin> set Object_prototype \<Longrightarrow> \<exists>st'. cameraEffect st = Inr st'"
  using targetConfig_cases[of "currentSection st"]
  by (auto simp: cameraEffect_def targetPosition_def Let_def split: option.splits)

lemma cameraEffect_Inr_section:
  "cameraEffect st = Inr st' \<Longrightarrow> currentSection st' = currentSection st"
  using cameraEffect_Inr by fastforce

lemma handleNavigation_total:
  "s \<notin> set Object_prototype \<Longrightarrow> \<exists>st'. handleNavigation s st = Inr st'"
  using cameraEffect_total[of "afterBuild s st"]
  by (simp add: handleNavigation_unfold)

lemma handleNavigation_section:
  "handleNavigation s st = Inr st' \<Longrightarrow> currentSection st' = s"
  by (auto simp: handleNavigation_unfold dest: cameraEffect_Inr_section split: if_splits)

lemma sections_built:
  "m \<in> set buildNavigationObjects \<Longrightarrow> ud_section (mesh_userData m) \<in> set clickableSections"
  by (auto simp: buildNavigationObjects_list clickableSections_def coreMesh_def skillMesh_def
      nodeMesh_def projectsRing_def)

lemma sections_kept:
  assumes "map mesh_userData objs = map mesh_userData buildNavigationObjects" "k < length objs"
  shows "ud_section (mesh_userData (objs ! k)) \<in> set clickableSections"
proof -
  have "mesh_userData (objs ! k) = mesh_userData (buildNavigationObjects ! k)"
    using assms by (metis length_map nth_map)
  moreover have "buildNavigationObjects ! k \<in> set buildNavigationObjects"
    using assms by (metis length_map nth_mem)
  ultimately show ?thesis using sections_built by simp
qed

lemma clickable_not_inherited:
  "s \<in> set clickableSections \<Longrightarrow> s \<notin> set Object_prototype \<and> s \<noteq> []"
  by (auto simp: clickableSections_def Object_prototype_def)

lemma handleClick_mounted:
  assumes "sceneInv st"
  shows "\<exists>cam objs. cameraRef st = Some cam \<and> navigationObjects st = Some objs
     \<and> (intersectObjects h objs = [] \<longrightarrow> handleClick h st = Inr st)
     \<and> (\<forall>i rest. intersectObjects h objs = i # rest \<longrightarrow>
          hit_object i < length objs
          \<and> ud_section (mesh_userData (objs ! hit_object i)) \<in> set clickableSections
          \<and> (\<exists>st'. handleClick h st = Inr st'
                \<and> currentSection st' = ud_section (mesh_userData (objs ! hit_object i))))"
proof -
  from assms obtain cam objs where
    s: "cameraRef st = Some cam" "navigationObjects st = Some objs"
      "map mesh_userData objs = map mesh_userData buildNavigationObjects"
    unfolding sceneInv_def by blast
  have "hit_object i < length objs
          \<and> ud_section (mesh_userData (objs ! hit_object i)) \<in> set clickableSections
          \<and> (\<exists>st'. handleClick h st = Inr st'
                \<and> currentSection st' = ud_section (mesh_userData (objs ! hit_object i)))"
    if i: "intersectObjects h objs = i # rest" for i rest
  proof -
    let ?s = "ud_section (mesh_userData (objs ! hit_object i))"
    have k: "hit_object i < length objs" using intersectObjects_first(1)[OF i] .
    have c: "?s \<in> set clickableSections" using sections_kept[OF s(3) k] .
    then have n: "?s \<notin> set Object_prototype" "?s \<noteq> []"
      using clickable_not_inherited by auto
    have hc: "handleClick h st = handleNavigation ?s st"
      using s i n(2) by (simp add: handleClick_def Let_def)
    obtain st' where st': "handleNavigation ?s st = Inr st'"
      using handleNavigation_total[OF n(1)] by blast
    then have "currentSection st' = ?s" using handleNavigation_section by blast
    with k c hc st' show ?thesis by simp
  qed
  moreover have "intersectObjects h objs = [] \<longrightarrow> handleClick h st = Inr st"
    using s by (simp add: handleClick_def)
  ultimately show ?thesis using s by blast
qed

lemma handleClick_total: "sceneInv st \<Longrightarrow> \<exists>st'. handleClick h st = Inr st'"
  using handleClick_mounted[of st h] by (cases "intersectObjects h (the (navigationObjects st))") auto

lemma step_total_known:
  "mounted st \<Longrightarrow> knownEvent e \<Longrightarrow> \<exists>st'. step e st = Inr st'"
  by (cases e) (auto simp: knownEvent_def mounted_def handleClick_total handleNavigation_total)

lemma run_total_known:
  "mounted st \<Longrightarrow> list_all knownEvent evs \<Longrightarrow> \<exists>st'. run evs st = Inr st'"
proof (induction evs arbitrary: st)
  case Nil
  then show ?case by simp
next
  case (Cons e evs)
  then obtain st1 where s: "step e st = Inr st1" using step_total_known by fastforce
  then have "mounted st1" using Cons.prems(1) mounted_step by blast
  with Cons s show ?case by auto
qed

lemma currentSection_fold:
  "currentSection (fold (runCallback h now) q st) = currentSection st"
proof (induction q arbitrary: st)
  case Nil
  then show ?case by simp
next
  case (Cons cb q)
  then show ?case by (cases cb) simp_all
qed

lemma currentSection_frame [simp]: "currentSection (frame h now st) = currentSection st"
  by (simp add: frame_def currentSection_fold)

subsection \<open>Interpolation\<close>

text \<open>
  A linear interpolation at a parameter between 0 and 1 stays between its ends,
  and the cubic ease-out maps the open unit interval into itself.
\<close>

lemma lerp_between:
  fixes a b e :: real
  assumes "0 \<le> e" "e \<le> 1"
  shows "min a b \<le> a + (b - a) * e" "a + (b - a) * e \<le> max a b"
proof -
  have 1: "a \<le> b \<Longrightarrow> 0 \<le> (b - a) * e \<and> (b - a) * e \<le> b - a"
    using assms by (simp add: mult_left_le)
  have 2: "b \<le> a \<Longrightarrow> 0 \<le> (a - b) * e \<and> (a - b) * e \<le> a - b"
    using assms by (simp add: mult_left_le)
  have 3: "(a - b) * e = - ((b - a) * e)" by (simp add: algebra_simps)
  show "min a b \<le> a + (b - a) * e" using 1 2 3 by (cases "a \<le> b") auto
  show "a + (b - a) * e \<le> max a b" using 1 2 3 by (cases "a \<le> b") auto
qed

lemma easing_bounds:
  fixes t :: real
  assumes "0 < t" "t < 1"
  shows "0 < 1 - (1 - t) ^ 3" "1 - (1 - t) ^ 3 < 1"
proof -
  have a: "0 < 1 - t" "1 - t < 1" using assms by simp_all
  then have "(1 - t) ^ 3 < 1" by (simp add: power_less_one_iff)
  then show "0 < 1 - (1 - t) ^ 3" by simp
  have "0 < (1 - t) ^ 3" using a by simp
  then show "1 - (1 - t) ^ 3 < 1" by simp
qed

lemma lerpVectors_start:
  assumes "lerpVectors a b e = a" "e \<noteq> 0"
  shows "a = b"
  using assms by (cases a; cases b) (simp add: lerpVectors_def)

lemma lerpVectors_end:
  assumes "lerpVectors a b e = b" "e \<noteq> 1"
  shows "a = b"
proof -
  have r: "x + (y - x) * e = y \<Longrightarrow> x = y" for x y :: real
  proof -
    assume "x + (y - x) * e = y"
    then have "(y - x) * (e - 1) = 0" by (simp add: algebra_simps)
    then show "x = y" using assms(2) by simp
  qed
  show ?thesis using assms(1) by (cases a; cases b) (auto simp: lerpVectors_def dest: r)
qed



subsection \<open>The navigation objects across events\<close>

text \<open>
  The frame loop writes the navigation objects once per frame, and the first
  change of section replaces them by the objects built anew.
\<close>



lemma fold_camera_only:
  assumes "\<forall>cb\<in>set q. cb \<noteq> Animate" "sceneInv st"
  shows "sceneInv (fold (runCallback h now) q st)
         \<and> navigationObjects (fold (runCallback h now) q st) = navigationObjects st"
  using assms
proof (induction q arbitrary: st)
  case Nil
  then show ?case by simp
next
  case (Cons cb q)
  then obtain tr where cb: "cb = AnimateCamera tr" by (cases cb) auto
  with Cons.IH[of "callAnimateCamera tr st"] Cons.prems show ?case
    by (simp add: sceneInv_callAnimateCamera)
qed

lemma frame_objects:
  assumes "mounted st"
  shows "\<exists>st1. sceneInv st1 \<and> navigationObjects st1 = navigationObjects st
           \<and> navigationObjects (frame h now st) = navigationObjects (animate h now st1)"
proof -
  from assms have f: "filter (\<lambda>c. c = Animate) (rafQueue st) = [Animate]" and s: "sceneInv st"
    by (simp_all add: mounted_def)
  from filter_eq_ConsD[OF f] obtain us vs where
    q: "rafQueue st = us @ Animate # vs" "\<forall>u\<in>set us. u \<noteq> Animate"
      "[] = filter (\<lambda>c. c = Animate) vs"
    by blast
  have vs: "\<forall>v\<in>set vs. v \<noteq> Animate"
    using q(3) filter_empty_conv[of "\<lambda>c. c = Animate" vs] by simp
  define st1 where "st1 = fold (runCallback h now) us (st\<lparr>rafQueue := []\<rparr>)"
  have s0: "sceneInv (st\<lparr>rafQueue := []\<rparr>)" using s by simp
  have 1: "sceneInv st1" "navigationObjects st1 = navigationObjects st"
    using fold_camera_only[OF q(2) s0, of h now] by (simp_all add: st1_def)
  have 2: "sceneInv (animate h now st1)" using 1(1) by (rule sceneInv_animate)
  have "fold (runCallback h now) (us @ Animate # vs) (st\<lparr>rafQueue := []\<rparr>)
          = fold (runCallback h now) vs (animate h now st1)"
    by (simp add: st1_def)
  then have "frame h now st = fold (runCallback h now) vs (animate h now st1)"
    unfolding frame_def q(1) .
  then have "navigationObjects (frame h now st) = navigationObjects (animate h now st1)"
    using fold_camera_only[OF vs 2, of h now] by simp
  with 1 show ?thesis by blast
qed



lemma rotated_0 [simp]: "rotated 0 r = r"
  by (simp add: rotated_def)

lemma sceneDep_fold [simp]: "sceneDep (fold (runCallback h now) q st) = sceneDep st"
proof (induction q arbitrary: st)
  case Nil
  then show ?case by simp
next
  case (Cons cb q)
  then show ?case by (cases cb) simp_all
qed

lemma sceneDep_frame [simp]: "sceneDep (frame h now st) = sceneDep st"
  by (simp add: frame_def)







lemma run_append:
  "run (evs1 @ evs2) st = (case run evs1 st of Inl err \<Rightarrow> Inl err | Inr st1 \<Rightarrow> run evs2 st1)"
  by (induction evs1 arbitrary: st) (simp_all split: sum.splits)




lemma handleClick_reach:
  assumes "sceneInv st"
  shows "\<exists>st'. handleClick h st = Inr st'
           \<and> (st' = st \<or> currentSection st' \<in> set clickableSections)"
proof -
  from handleClick_mounted[OF assms, of h] obtain cam objs where
    o: "navigationObjects st = Some objs"
      "intersectObjects h objs = [] \<longrightarrow> handleClick h st = Inr st"
      "\<forall>i rest. intersectObjects h objs = i # rest \<longrightarrow>
          hit_object i < length objs
          \<and> ud_section (mesh_userData (objs ! hit_object i)) \<in> set clickableSections
          \<and> (\<exists>st'. handleClick h st = Inr st'
                \<and> currentSection st' = ud_section (mesh_userData (objs ! hit_object i)))"
    by blast
  show ?thesis
  proof (cases "intersectObjects h objs")
    case Nil
    with o(2) show ?thesis by simp
  next
    case (Cons i rest)
    with o(3) show ?thesis by fastforce
  qed
qed

subsection \<open>Scale under hover\<close>

text \<open>
  The scale of an object after a frame, hovered or not.
\<close>

lemma scale_animate:
  assumes "sceneInv st" "navigationObjects st = Some objs" "k < length objs"
  shows "\<exists>objs'. navigationObjects (animate h now st) = Some objs'
           \<and> length objs' = length objs
           \<and> mesh_scale (objs' ! k) =
               (if hovered h objs k
                then lerp (lerp (mesh_scale (objs ! k)) (Vector3 1 1 1) 0.1)
                       (Vector3 1.2 1.2 1.2) 0.1
                else lerp (mesh_scale (objs ! k)) (Vector3 1 1 1) 0.1)"
proof -
  from assms(1,2) obtain cam where
    s: "cameraRef st = Some cam" "core st = Some 0"
      "map mesh_userData objs = map mesh_userData buildNavigationObjects"
    unfolding sceneInv_def by auto
  have c: "0 < length objs" using core_is_first(1)[OF s(3)] by simp
  from animate_objects[OF assms(2) s(1) s(2) c, of h now] obtain objs' where
    o: "navigationObjects (animate h now st) = Some objs'" "length objs' = length objs"
      "\<forall>k<length objs. objs' ! k =
                 (let obj = rotateObject (if k = 0 then coreRotation (now * 0.001) (objs ! k)
                                          else objs ! k)
                  in if hovered h objs k then scaleToward 1.2 (scaleToward 1 obj)
                     else scaleToward 1 obj)"
    by blast
  have "mesh_scale (objs' ! k) =
               (if hovered h objs k
                then lerp (lerp (mesh_scale (objs ! k)) (Vector3 1 1 1) 0.1)
                       (Vector3 1.2 1.2 1.2) 0.1
                else lerp (mesh_scale (objs ! k)) (Vector3 1 1 1) 0.1)"
    using o(3) assms(3) by (simp add: Let_def)
  with o(1,2) show ?thesis by blast
qed

lemma scale_frame:
  assumes "mounted st" "navigationObjects st = Some objs" "k < length objs"
  shows "\<exists>objs'. navigationObjects (frame h now st) = Some objs'
           \<and> length objs' = length objs
           \<and> mesh_scale (objs' ! k) =
               (if hovered h objs k
                then lerp (lerp (mesh_scale (objs ! k)) (Vector3 1 1 1) 0.1)
                       (Vector3 1.2 1.2 1.2) 0.1
                else lerp (mesh_scale (objs ! k)) (Vector3 1 1 1) 0.1)"
proof -
  from frame_objects[OF assms(1), of h now] obtain st1 where
    1: "sceneInv st1" "navigationObjects st1 = navigationObjects st"
      "navigationObjects (frame h now st) = navigationObjects (animate h now st1)"
    by blast
  from 1(2) assms(2) have "navigationObjects st1 = Some objs" by simp
  from scale_animate[OF 1(1) this assms(3), of h now] show ?thesis unfolding 1(3) .
qed

lemma mount_scale:
  assumes "mount h now = Inr st0" "k < length buildNavigationObjects"
  shows "\<exists>objs. navigationObjects st0 = Some objs \<and> length objs = length buildNavigationObjects
           \<and> mesh_scale (objs ! k) =
               (if hovered h buildNavigationObjects k
                then lerp (lerp (mesh_scale (buildNavigationObjects ! k)) (Vector3 1 1 1) 0.1)
                       (Vector3 1.2 1.2 1.2) 0.1
                else lerp (mesh_scale (buildNavigationObjects ! k)) (Vector3 1 1 1) 0.1)"
proof -
  from assms(1) obtain st1 where
    c: "cameraEffect sceneState = Inr st1" and st: "st0 = animate h now st1"
    by (auto simp: mount_def split: sum.splits)
  have i: "sceneInv st1" using sceneInv_cameraEffect[OF sceneInv_sceneState c] .
  have "navigationObjects st1 = navigationObjects sceneState"
    using cameraEffect_Inr[OF c] by auto
  then have n: "navigationObjects st1 = Some buildNavigationObjects"
    by (simp add: sceneState_eq)
  from scale_animate[OF i n assms(2), of h now] show ?thesis unfolding st .
qed

lemma hovered_hoverCore: "0 < length objs \<Longrightarrow> hovered hoverCore objs k \<longleftrightarrow> k = 0"
proof -
  assume l: "0 < length objs"
  have c: "concat (map (\<lambda>i. map (\<lambda>d. \<lparr>hit_distance = d, hit_object = i\<rparr>) (hoverCore i)) [m..<n])
             = (if m = 0 \<and> 0 < n then [\<lparr>hit_distance = 10, hit_object = 0\<rparr>] else [])"
    for m n
    by (induction n) (auto simp: hoverCore_def)
  show ?thesis using l by (auto simp: hovered_def intersectObjects_def c)
qed

subsection \<open>Keys of the camera configuration\<close>

text \<open>
  What the lookup of a section in the camera configuration yields.
\<close>

lemma targetConfig_inherited:
  "s \<in> set Object_prototype \<Longrightarrow> targetConfig s = Inherited"
  by (auto simp: targetConfig_def js_get_def CAMERA_POSITIONS_def Object_prototype_def)

lemma cameraEffect_inherited:
  "cameraRef st = Some cam \<Longrightarrow> currentSection st \<in> set Object_prototype \<Longrightarrow>
   cameraEffect st = Inl TypeError"
  by (simp add: cameraEffect_def targetConfig_inherited targetPosition_def)

lemma targetConfig_unrecognized:
  "map_of CAMERA_POSITIONS s = None \<Longrightarrow> s \<notin> set Object_prototype \<Longrightarrow>
   targetConfig s = Config \<lparr>cfg_position = Vector3 0 0 12, cfg_target = Vector3 0 0 0\<rparr>"
  by (simp add: targetConfig_def js_get_def) (simp add: CAMERA_POSITIONS_def)

lemma targetConfig_recognized:
  "map_of CAMERA_POSITIONS s = Some c \<Longrightarrow> targetConfig s = Config c"
  by (simp add: targetConfig_def js_get_def)

subsection \<open>Callbacks of camera transitions\<close>

text \<open>
  A navigation only adds a callback; those registered before stay and run.
\<close>

lemma callAnimateCamera_step:
  assumes "cameraRef st = Some cam" "tr_progress tr + 0.02 \<le> 1"
  shows "cameraRef (callAnimateCamera tr st) =
           Some (cam\<lparr>cam_position :=
                    lerpVectors (tr_startPosition tr) (tr_targetPosition tr)
                      (1 - (1 - (tr_progress tr + 0.02)) ^ 3),
                  cam_lookAt := Some (tr_target tr)\<rparr>)"
    "rafQueue (callAnimateCamera tr st) =
       rafQueue st @ [AnimateCamera (tr\<lparr>tr_progress := tr_progress tr + 0.02\<rparr>)]"
  using assms by (simp_all add: callAnimateCamera_def animateCamera_def Let_def)

lemma cameraEffect_known:
  assumes "cameraRef st = Some cam" "targetConfig (currentSection st) = Config c"
  shows "cameraEffect st =
           Inr (callAnimateCamera
                 \<lparr>tr_startPosition = cam_position cam, tr_targetPosition = cfg_position c,
                  tr_target = cfg_target c, tr_progress = 0\<rparr> st)"
  using assms by (simp add: cameraEffect_def targetPosition_def)

lemma handleNavigation_keeps_queue:
  "handleNavigation s st = Inr st' \<Longrightarrow> \<exists>q. rafQueue st' = rafQueue st @ q"
  using cameraEffect_Inr[of "afterBuild s st" st']
  by (auto simp: handleNavigation_unfold callAnimateCamera_def
      split: if_splits option.splits prod.splits)

text \<open>
  A callback of an earlier transition that is first in the queue still runs first in
  the frame after a navigation, and puts the camera on its own path.
\<close>

lemma earlier_callback_runs_after_navigation:
  assumes "cameraRef st = Some cam" "rafQueue st = AnimateCamera tr # q"
    "tr_progress tr + 0.02 \<le> 1" "handleNavigation s st = Inr st1"
  shows "\<exists>cam'. cameraRef (runCallback h now (hd (rafQueue st1)) (st1\<lparr>rafQueue := []\<rparr>))
                   = Some cam'
           \<and> cam_position cam' =
               lerpVectors (tr_startPosition tr) (tr_targetPosition tr)
                 (1 - (1 - (tr_progress tr + 0.02)) ^ 3)"
proof -
  from handleNavigation_keeps_queue[OF assms(4)] assms(2)
  have hd: "hd (rafQueue st1) = AnimateCamera tr" by auto
  have "st1 = st \<or> (\<exists>tr'. st1 = callAnimateCamera tr' (afterBuild s st))"
    using assms(1,4) cameraEffect_Inr[of "afterBuild s st" st1]
    by (auto simp: handleNavigation_unfold split: if_splits)
  then obtain cam1 where "cameraRef st1 = Some cam1"
    using assms(1) callAnimateCamera_camera[of "afterBuild s st" cam] by auto
  then have c: "cameraRef (st1\<lparr>rafQueue := []\<rparr>) = Some cam1" by simp
  show ?thesis
    unfolding hd using callAnimateCamera_step(1)[OF c assms(3)] by simp
qed

text \<open>
  A navigation to another section whose camera pose is configured registers one
  callback: the transition it starts.
\<close>

lemma handleNavigation_starts:
  assumes "cameraRef st = Some cam" "s \<noteq> currentSection st" "targetConfig s = Config c"
  shows "\<exists>st' tr. handleNavigation s st = Inr st' \<and> currentSection st' = s
           \<and> rafQueue st' = rafQueue st @ [AnimateCamera tr]
           \<and> tr_targetPosition tr = cfg_position c"
proof -
  let ?tr = "\<lparr>tr_startPosition = cam_position cam, tr_targetPosition = cfg_position c,
              tr_target = cfg_target c, tr_progress = 0\<rparr>"
  have c: "cameraRef (afterBuild s st) = Some cam" using assms(1) by simp
  have "cameraEffect (afterBuild s st) = Inr (callAnimateCamera ?tr (afterBuild s st))"
    using cameraEffect_known[OF c, of c] assms(3) by simp
  then have 1: "handleNavigation s st = Inr (callAnimateCamera ?tr (afterBuild s st))"
    using assms(2) by (simp add: handleNavigation_unfold)
  have 2: "rafQueue (callAnimateCamera ?tr (afterBuild s st))
             = rafQueue st @ [AnimateCamera (?tr\<lparr>tr_progress := tr_progress ?tr + 0.02\<rparr>)]"
    using callAnimateCamera_step(2)[OF c, of ?tr] by simp
  have 3: "currentSection (callAnimateCamera ?tr (afterBuild s st)) = s" by simp
  from 1 2 3 show ?thesis
    by (intro exI[of _ "callAnimateCamera ?tr (afterBuild s st)"]
        exI[of _ "?tr\<lparr>tr_progress := tr_progress ?tr + 0.02\<rparr>"]) simp
qed

subsection \<open>The state after mounting and the pick\<close>


lemma mount_section: "mount h now = Inr st \<Longrightarrow> currentSection st = ''home''"
  by (auto simp: mount_def sceneState_eq split: sum.splits dest!: cameraEffect_Inr_section)

lemma built_length:
  assumes "sceneInv st" "navigationObjects st = Some objs"
  shows "length objs = length buildNavigationObjects"
proof -
  from assms have "map mesh_userData objs = map mesh_userData buildNavigationObjects"
    by (auto simp: sceneInv_def)
  then show ?thesis by (metis length_map)
qed

lemma built_userData:
  assumes "sceneInv st" "navigationObjects st = Some objs" "k < length objs"
  shows "mesh_userData (objs ! k) = mesh_userData (buildNavigationObjects ! k)"
proof -
  from assms(1,2) have "map mesh_userData objs = map mesh_userData buildNavigationObjects"
    by (auto simp: sceneInv_def)
  with assms(3) show ?thesis by (metis length_map nth_map)
qed

lemma intersectObjects_noHits [simp]: "intersectObjects noHits objs = []"
  by (simp add: intersectObjects_empty noHits_def)

lemma handleClick_noHits [simp]: "handleClick noHits st = Inr st"
  by (simp add: handleClick_def split: option.splits)


section \<open>The claims\<close>

text \<open>
  C1 fails in the code for the section identifiers that name a property of
  \<^verbatim>\<open>Object.prototype\<close>. In the mounted application, navigation to the section
  \<^verbatim>\<open>constructor\<close> finds \<^verbatim>\<open>CAMERA_POSITIONS['constructor']\<close> truthy, takes no fallback to
  the home pose, and the camera effect throws a \<^verbatim>\<open>TypeError\<close>; \<^verbatim>\<open>renderSection\<close>, on the
  same identifier, does fall back to the home panel.
\<close>

theorem C1_inherited_key_throws:
  "\<exists>st0. mount noHits 0 = Inr st0
     \<and> targetConfig ''constructor'' = Inherited
     \<and> handleNavigation ''constructor'' st0 = Inl TypeError
     \<and> step (Dock ''constructor'') st0 = Inl TypeError
     \<and> renderSection ''constructor'' = HeroSection"
proof -
  obtain st0 where m: "mount noHits 0 = Inr st0" using mount_total by blast
  have p: "''constructor'' \<in> set Object_prototype" by (simp add: Object_prototype_def)
  have "sceneInv st0" using mounted_mount[OF m] by (simp add: mounted_def)
  then obtain cam where c: "cameraRef st0 = Some cam" by (auto simp: sceneInv_def)
  have h: "currentSection st0 = ''home''"
    using m by (auto simp: mount_def sceneState_eq split: sum.splits
        dest!: cameraEffect_Inr_section)
  have "cameraEffect (afterBuild ''constructor'' st0) = Inl TypeError"
    using cameraEffect_inherited[of "afterBuild ''constructor'' st0" cam] c p
    by simp
  then have "handleNavigation ''constructor'' st0 = Inl TypeError"
    using h by (simp add: handleNavigation_unfold)
  with m targetConfig_inherited[OF p] show ?thesis by (simp add: renderSection_def)
qed

text \<open>
  C2 fails in the code: the camera effect has no cleanup, so the callbacks of the earlier
  transition stay registered and go on writing the camera. The transition to home that
  starts when the application is mounted is in flight (its parameter is 0.02) when the
  dock asks for the about section. The new transition does start from the camera
  position at the request, (0, 0, 12), and takes the camera to
  (-0.470464, 0.176424, 11.764768). In the next frame the callback of the earlier
  transition runs first and puts the camera back at (0, 0, 12), looking at the origin:
  the destination pose of the earlier transition. That is the pose the frame renders.
  Only then does the callback of the new transition move the camera on, to
  (-0.922112, 0.345792, 11.538944).
\<close>

theorem C2_earlier_transition_still_writes_camera:
  "\<exists>st0 st1. mount noHits 0 = Inr st0 \<and> handleNavigation ''about'' st0 = Inr st1
     \<and> cameraRef st0 = Some \<lparr>cam_position = Vector3 0 0 12, cam_lookAt = Some (Vector3 0 0 0)\<rparr>
     \<and> rafQueue st0 =
          [AnimateCamera \<lparr>tr_startPosition = Vector3 0 0 12, tr_targetPosition = Vector3 0 0 12,
                          tr_target = Vector3 0 0 0, tr_progress = 0.02\<rparr>,
           Animate]
     \<and> cameraRef st1 =
          Some \<lparr>cam_position = Vector3 (- 0.470464) 0.176424 11.764768,
                cam_lookAt = Some (Vector3 (- 2) 0 0)\<rparr>
     \<and> rafQueue st1 =
          [AnimateCamera \<lparr>tr_startPosition = Vector3 0 0 12, tr_targetPosition = Vector3 0 0 12,
                          tr_target = Vector3 0 0 0, tr_progress = 0.02\<rparr>,
           Animate,
           AnimateCamera \<lparr>tr_startPosition = Vector3 0 0 12, tr_targetPosition = Vector3 (- 8) 3 8,
                          tr_target = Vector3 (- 2) 0 0, tr_progress = 0.02\<rparr>]
     \<and> cameraRef (runCallback noHits 16 (hd (rafQueue st1)) (st1\<lparr>rafQueue := []\<rparr>)) =
          Some \<lparr>cam_position = Vector3 0 0 12, cam_lookAt = Some (Vector3 0 0 0)\<rparr>
     \<and> rendered (frame noHits 16 st1) =
          [\<lparr>cam_position = Vector3 0 0 12, cam_lookAt = Some (Vector3 0 0 0)\<rparr>,
           \<lparr>cam_position = Vector3 0 0 12, cam_lookAt = Some (Vector3 0 0 0)\<rparr>]
     \<and> cameraRef (frame noHits 16 st1) =
          Some \<lparr>cam_position = Vector3 (- 0.922112) 0.345792 11.538944,
                cam_lookAt = Some (Vector3 (- 2) 0 0)\<rparr>"
proof -
  let ?home = "\<lparr>cam_position = Vector3 0 0 12, cam_lookAt = Some (Vector3 0 0 0)\<rparr>"
  let ?tr0 = "\<lparr>tr_startPosition = Vector3 0 0 12, tr_targetPosition = Vector3 0 0 12,
               tr_target = Vector3 0 0 0, tr_progress = 0\<rparr>"
  let ?tr0' = "\<lparr>tr_startPosition = Vector3 0 0 12, tr_targetPosition = Vector3 0 0 12,
               tr_target = Vector3 0 0 0, tr_progress = 0.02\<rparr>"
  let ?tr1 = "\<lparr>tr_startPosition = Vector3 0 0 12, tr_targetPosition = Vector3 (- 8) 3 8,
               tr_target = Vector3 (- 2) 0 0, tr_progress = 0\<rparr>"
  let ?tr1' = "\<lparr>tr_startPosition = Vector3 0 0 12, tr_targetPosition = Vector3 (- 8) 3 8,
               tr_target = Vector3 (- 2) 0 0, tr_progress = 0.02\<rparr>"
  define sc where "sc = callAnimateCamera ?tr0 sceneState"
  define st0 where "st0 = animate noHits 0 sc"
  define sn where "sn = afterBuild ''about'' st0"
  define st1 where "st1 = callAnimateCamera ?tr1 sn"
  define sa where "sa = callAnimateCamera ?tr0' (st1\<lparr>rafQueue := []\<rparr>)"
  define sb where "sb = animate noHits 16 sa"
  define sd where "sd = callAnimateCamera ?tr1' sb"
  have tc: "targetConfig ''home'' = Config \<lparr>cfg_position = Vector3 0 0 12, cfg_target = Vector3 0 0 0\<rparr>"
    "targetConfig ''about'' = Config \<lparr>cfg_position = Vector3 (- 8) 3 8, cfg_target = Vector3 (- 2) 0 0\<rparr>"
    by (simp_all add: targetConfig_def js_get_def CAMERA_POSITIONS_def)
  have ce: "cameraEffect sceneState = Inr sc"
    unfolding sc_def
    using cameraEffect_known[of sceneState "\<lparr>cam_position = Vector3 0 0 12, cam_lookAt = None\<rparr>"
        "\<lparr>cfg_position = Vector3 0 0 12, cfg_target = Vector3 0 0 0\<rparr>"] tc(1)
    by (simp add: sceneState_eq)
  have m: "mount noHits 0 = Inr st0" by (simp add: mount_def ce st0_def)
  have sc_cam: "cameraRef sc = Some ?home"
    unfolding sc_def
    using callAnimateCamera_step(1)[of sceneState
        "\<lparr>cam_position = Vector3 0 0 12, cam_lookAt = None\<rparr>" ?tr0]
    by (simp add: sceneState_eq lerpVectors_def)
  have sc_q: "rafQueue sc = [AnimateCamera ?tr0']"
    unfolding sc_def
    using callAnimateCamera_step(2)[of sceneState
        "\<lparr>cam_position = Vector3 0 0 12, cam_lookAt = None\<rparr>" ?tr0]
    by (simp add: sceneState_eq)
  have st0_cam: "cameraRef st0 = Some ?home" by (simp add: st0_def sc_cam)
  have st0_q: "rafQueue st0 = [AnimateCamera ?tr0', Animate]" by (simp add: st0_def sc_q)
  have st0_r: "rendered st0 = [?home]"
    unfolding st0_def using animate_rendered[OF sc_cam, of noHits 0]
    by (simp add: sc_def sceneState_eq)
  have st0_s: "currentSection st0 = ''home''" by (simp add: st0_def sc_def sceneState_eq)
  have sn_cam: "cameraRef sn = Some ?home" by (simp add: sn_def st0_cam)
  have nav: "handleNavigation ''about'' st0 = Inr st1"
    unfolding st1_def
    using cameraEffect_known[OF sn_cam, of "\<lparr>cfg_position = Vector3 (- 8) 3 8, cfg_target = Vector3 (- 2) 0 0\<rparr>"]
      tc(2) st0_s
    by (simp add: handleNavigation_unfold sn_def)
  have st1_cam: "cameraRef st1 =
          Some \<lparr>cam_position = Vector3 (- 0.470464) 0.176424 11.764768,
                cam_lookAt = Some (Vector3 (- 2) 0 0)\<rparr>"
    unfolding st1_def using callAnimateCamera_step(1)[OF sn_cam, of ?tr1]
    by (simp add: lerpVectors_def power3_eq_cube)
  have st1_q: "rafQueue st1 = [AnimateCamera ?tr0', Animate, AnimateCamera ?tr1']"
    unfolding st1_def using callAnimateCamera_step(2)[OF sn_cam, of ?tr1]
    by (simp add: sn_def st0_q)
  have st1_r: "rendered st1 = [?home]" by (simp add: st1_def sn_def st0_r)
  have st1e_cam: "cameraRef (st1\<lparr>rafQueue := []\<rparr>) =
          Some \<lparr>cam_position = Vector3 (- 0.470464) 0.176424 11.764768,
                cam_lookAt = Some (Vector3 (- 2) 0 0)\<rparr>"
    by (simp add: st1_cam)
  have sa_cam: "cameraRef sa = Some ?home"
    unfolding sa_def using callAnimateCamera_step(1)[OF st1e_cam, of ?tr0']
    by (simp add: lerpVectors_def)
  have sa_r: "rendered sa = [?home]" by (simp add: sa_def st1_r)
  have sb_cam: "cameraRef sb = Some ?home" by (simp add: sb_def sa_cam)
  have sb_r: "rendered sb = [?home, ?home]"
    unfolding sb_def using animate_rendered[OF sa_cam, of noHits 16] by (simp add: sa_r)
  have sd_cam: "cameraRef sd =
          Some \<lparr>cam_position = Vector3 (- 0.922112) 0.345792 11.538944,
                cam_lookAt = Some (Vector3 (- 2) 0 0)\<rparr>"
    unfolding sd_def using callAnimateCamera_step(1)[OF sb_cam, of ?tr1']
    by (simp add: lerpVectors_def power3_eq_cube)
  have sd_r: "rendered sd = [?home, ?home]" by (simp add: sd_def sb_r)
  have fr: "frame noHits 16 st1 = sd"
    by (simp add: frame_def st1_q sd_def sb_def sa_def)
  have first: "runCallback noHits 16 (hd (rafQueue st1)) (st1\<lparr>rafQueue := []\<rparr>) = sa"
    by (simp add: st1_q sa_def)
  have "mount noHits 0 = Inr st0 \<and> handleNavigation ''about'' st0 = Inr st1
     \<and> cameraRef st0 = Some ?home
     \<and> rafQueue st0 = [AnimateCamera ?tr0', Animate]
     \<and> cameraRef st1 =
          Some \<lparr>cam_position = Vector3 (- 0.470464) 0.176424 11.764768,
                cam_lookAt = Some (Vector3 (- 2) 0 0)\<rparr>
     \<and> rafQueue st1 = [AnimateCamera ?tr0', Animate, AnimateCamera ?tr1']
     \<and> cameraRef (runCallback noHits 16 (hd (rafQueue st1)) (st1\<lparr>rafQueue := []\<rparr>)) = Some ?home
     \<and> rendered (frame noHits 16 st1) = [?home, ?home]
     \<and> cameraRef (frame noHits 16 st1) =
          Some \<lparr>cam_position = Vector3 (- 0.922112) 0.345792 11.538944,
                cam_lookAt = Some (Vector3 (- 2) 0 0)\<rparr>"
    unfolding fr first using m nav st0_cam st0_q st1_cam st1_q sa_cam sd_r sd_cam by (intro conjI)
  then show ?thesis by (intro exI)
qed

text \<open>
  C3. In every state the mounted application can reach, the decorative state after a
  frame (the rotation of the particle field, the rotation of the core, the position of
  the key light and the intensity of the rim light) is \<open>decorativeAt now\<close>: a function
  of the clock value of that frame alone, whatever events and however many frames came
  before.
\<close>

theorem C3_decoration_of_time_only:
  assumes "mount h0 t0 = Inr st0" and "run evs st0 = Inr st"
  shows "decorativeState (frame h now st) = Some (decorativeAt now)"
  using assms mounted_mount mounted_run decorative_frame by blast

theorem C3_witness:
  "\<exists>st0 st. mount noHits 0 = Inr st0
     \<and> run [Frame noHits 16, Dock ''skills'', Frame hoverCore 33] st0 = Inr st
     \<and> decorativeState (frame noHits 1000 st) = Some (decorativeAt 1000)
     \<and> dec_particles_rotation (decorativeAt 1000) = Vector3 0.02 0.05 0"
proof -
  obtain st0 where m: "mount noHits 0 = Inr st0" using mount_total by blast
  obtain st where r: "run [Frame noHits 16, Dock ''skills'', Frame hoverCore 33] st0 = Inr st"
    using run_total_known[of st0 "[Frame noHits 16, Dock ''skills'', Frame hoverCore 33]"]
      mounted_mount[OF m]
    by (auto simp: knownEvent_def Object_prototype_def)
  show ?thesis
    using m r C3_decoration_of_time_only[OF m r, of noHits 1000]
    by (auto simp: decorativeAt_def)
qed



text \<open>
  C5. In every state the mounted application can reach, the camera and the navigation
  objects are there, and a click whose ray meets no navigation object returns the state
  as it was (the navigation state and with it the mounted panel are unchanged, and
  nothing fails), while a click whose ray meets one returns a state whose navigation
  state is the section tag of the picked object.
\<close>

theorem C5_click_navigates:
  assumes "mount h0 t0 = Inr st0" and "run evs st0 = Inr st"
  shows "\<exists>cam objs. cameraRef st = Some cam \<and> navigationObjects st = Some objs
     \<and> (intersectObjects h objs = [] \<longrightarrow>
           (\<exists>st'. handleClick h st = Inr st' \<and> st' = st
              \<and> currentSection st' = currentSection st
              \<and> renderSection (currentSection st') = renderSection (currentSection st)))
     \<and> (\<forall>i rest. intersectObjects h objs = i # rest \<longrightarrow>
          (\<exists>st'. handleClick h st = Inr st'
                \<and> currentSection st' = ud_section (mesh_userData (objs ! hit_object i))))"
proof -
  have "sceneInv st" using assms mounted_mount mounted_run mounted_def by blast
  from handleClick_mounted[OF this, of h] show ?thesis by blast
qed

theorem C5_witness:
  "\<exists>st0 st st'. mount noHits 0 = Inr st0 \<and> run [Frame noHits 16] st0 = Inr st
     \<and> handleClick noHits st = Inr st
     \<and> handleClick hoverCore st = Inr st' \<and> currentSection st = ''home''
     \<and> currentSection st' = ''about''"
proof -
  obtain st0 where m: "mount noHits 0 = Inr st0" using mount_total by blast
  define st where "st = frame noHits 16 st0"
  have r: "run [Frame noHits 16] st0 = Inr st" by (simp add: st_def)
  from C5_click_navigates[OF m r, of noHits] obtain cam objs where
    o: "cameraRef st = Some cam" "navigationObjects st = Some objs"
      "intersectObjects noHits objs = [] \<longrightarrow> handleClick noHits st = Inr st"
    by blast
  have n: "intersectObjects noHits objs = []"
    by (simp add: intersectObjects_empty noHits_def)
  from C5_click_navigates[OF m r, of hoverCore] o obtain
    c: "\<forall>i rest. intersectObjects hoverCore objs = i # rest \<longrightarrow>
          (\<exists>st'. handleClick hoverCore st = Inr st'
                \<and> currentSection st' = ud_section (mesh_userData (objs ! hit_object i)))"
    by auto
  have "mounted st" using mounted_mount[OF m] mounted_run[OF _ r] by blast
  then have ud: "map mesh_userData objs = map mesh_userData buildNavigationObjects"
    using o(2) by (auto simp: mounted_def sceneInv_def)
  then have len: "length objs = 9" using core_is_first(1) by blast
  then have i: "intersectObjects hoverCore objs = [\<lparr>hit_distance = 10, hit_object = 0\<rparr>]"
    by (simp add: intersectObjects_def hoverCore_def numeral_eq_Suc)
  have "mesh_userData (objs ! 0) = mesh_userData (buildNavigationObjects ! 0)"
    using ud len by (metis length_map nth_map zero_less_numeral)
  then have s: "ud_section (mesh_userData (objs ! 0)) = ''about''"
    by (simp add: buildNavigationObjects_list coreMesh_def)
  from c i s obtain st' where
    st': "handleClick hoverCore st = Inr st'" "currentSection st' = ''about''"
    by auto
  have "currentSection st0 = ''home''"
    using m by (auto simp: mount_def sceneState_eq split: sum.splits
        dest!: cameraEffect_Inr_section)
  then have "currentSection st = ''home''" by (simp add: st_def)
  with m r o(3) n st' show ?thesis by blast
qed

text \<open>
  C6, as stated, fails on the hovered object. The core, hovered from the first frame on,
  has scale 1.02 once the application is mounted; the next frame takes it to 1.0362,
  not to the 1.038 that one smoothing step from 1.02 toward 1.2 gives.
\<close>

theorem C6_counterexample:
  "hovered hoverCore (the (navigationObjects (projr (mount hoverCore 0)))) 0
   \<and> mesh_scale (the (navigationObjects (projr (mount hoverCore 0))) ! 0)
       = Vector3 1.02 1.02 1.02
   \<and> mesh_scale (the (navigationObjects (frame hoverCore 16 (projr (mount hoverCore 0)))) ! 0)
       = Vector3 1.0362 1.0362 1.0362
   \<and> lerp (Vector3 1.02 1.02 1.02) (Vector3 1.2 1.2 1.2) 0.1 = Vector3 1.038 1.038 1.038
   \<and> Vector3 1.0362 1.0362 1.0362 \<noteq> Vector3 1.038 1.038 1.038"
proof -
  obtain st0 where m: "mount hoverCore 0 = Inr st0" using mount_total by blast
  have b: "0 < length buildNavigationObjects" by (simp add: length_buildNavigationObjects)
  have hb: "hovered hoverCore buildNavigationObjects 0" using hovered_hoverCore[OF b] by simp
  have sb: "mesh_scale (buildNavigationObjects ! 0) = Vector3 1 1 1"
    by (simp add: buildNavigationObjects_list coreMesh_def)
  have l0: "lerp (lerp (Vector3 1 1 1) (Vector3 1 1 1) 0.1) (Vector3 1.2 1.2 1.2) 0.1
              = Vector3 1.02 1.02 1.02"
    by (simp add: lerp_def)
  from mount_scale[OF m b] obtain objs where
    o: "navigationObjects st0 = Some objs" "length objs = length buildNavigationObjects"
      "mesh_scale (objs ! 0) = Vector3 1.02 1.02 1.02"
    unfolding if_P[OF hb] sb l0 by blast
  have k: "0 < length objs" using o(2) b by simp
  from scale_frame[OF mounted_mount[OF m] o(1) k, of hoverCore 16] obtain objs' where
    o': "navigationObjects (frame hoverCore 16 st0) = Some objs'"
      "mesh_scale (objs' ! 0) = Vector3 1.0362 1.0362 1.0362"
    by (auto simp: hovered_hoverCore[OF k] o(3) lerp_def)
  show ?thesis
    using m o o' hovered_hoverCore[OF k, of 0] by (simp add: lerp_def)
qed

text \<open>
  C6, amended. In every state the mounted application can reach, a frame smooths the
  scale of every navigation object toward 1.0 with factor 0.1, the hovered one
  included; the hovered object (the one of the first intersection, if there is any) is
  then, in the same frame, smoothed once more with factor 0.1, toward 1.2, starting
  from the scale the first step gave it.
\<close>

theorem C6_hover_scaling:
  assumes "mount h0 t0 = Inr st0" and "run evs st0 = Inr st"
    and "navigationObjects st = Some objs" and "k < length objs"
  shows "\<exists>objs'. navigationObjects (frame h now st) = Some objs'
     \<and> length objs' = length objs
     \<and> mesh_scale (objs' ! k) =
         (case intersectObjects h objs of
            [] \<Rightarrow> lerp (mesh_scale (objs ! k)) (Vector3 1 1 1) 0.1
          | i # _ \<Rightarrow>
              if hit_object i = k
              then lerp (lerp (mesh_scale (objs ! k)) (Vector3 1 1 1) 0.1)
                     (Vector3 1.2 1.2 1.2) 0.1
              else lerp (mesh_scale (objs ! k)) (Vector3 1 1 1) 0.1)"
proof -
  have "mounted st" using assms(1,2) mounted_mount mounted_run by blast
  from scale_frame[OF this assms(3,4), of h now] show ?thesis
    by (auto simp: hovered_def split: list.splits)
qed

theorem C6_witness:
  "\<exists>st0 objs objs'. mount hoverCore 0 = Inr st0 \<and> run [] st0 = Inr st0
     \<and> navigationObjects st0 = Some objs
     \<and> navigationObjects (frame hoverCore 16 st0) = Some objs'
     \<and> intersectObjects hoverCore objs = [\<lparr>hit_distance = 10, hit_object = 0\<rparr>]
     \<and> mesh_scale (objs ! 0) = Vector3 1.02 1.02 1.02
     \<and> mesh_scale (objs' ! 0) = Vector3 1.0362 1.0362 1.0362
     \<and> mesh_scale (objs ! 1) = Vector3 1 1 1
     \<and> mesh_scale (objs' ! 1) = Vector3 1 1 1"
proof -
  obtain st0 where m: "mount hoverCore 0 = Inr st0" using mount_total by blast
  have r: "run [] st0 = Inr st0" by simp
  have b: "0 < length buildNavigationObjects" "1 < length buildNavigationObjects"
    by (simp_all add: length_buildNavigationObjects)
  have hb: "hovered hoverCore buildNavigationObjects 0"
    "\<not> hovered hoverCore buildNavigationObjects 1"
    using hovered_hoverCore[OF b(1)] by simp_all
  have sb: "mesh_scale (buildNavigationObjects ! 0) = Vector3 1 1 1"
    "mesh_scale (buildNavigationObjects ! 1) = Vector3 1 1 1"
    by (simp_all add: buildNavigationObjects_list coreMesh_def skillMesh_def)
  have l0: "lerp (lerp (Vector3 1 1 1) (Vector3 1 1 1) 0.1) (Vector3 1.2 1.2 1.2) 0.1
              = Vector3 1.02 1.02 1.02"
    "lerp (Vector3 1 1 1) (Vector3 1 1 1) 0.1 = Vector3 1 1 1"
    by (simp_all add: lerp_def)
  from mount_scale[OF m b(1)] obtain objs where
    o: "navigationObjects st0 = Some objs" "length objs = length buildNavigationObjects"
    and o3: "mesh_scale (objs ! 0) =
               (if hovered hoverCore buildNavigationObjects 0
                then lerp (lerp (mesh_scale (buildNavigationObjects ! 0)) (Vector3 1 1 1) 0.1)
                       (Vector3 1.2 1.2 1.2) 0.1
                else lerp (mesh_scale (buildNavigationObjects ! 0)) (Vector3 1 1 1) 0.1)"
    by blast
  from mount_scale[OF m b(2)] obtain objs2 where
    "navigationObjects st0 = Some objs2"
    and o4: "mesh_scale (objs2 ! 1) =
               (if hovered hoverCore buildNavigationObjects 1
                then lerp (lerp (mesh_scale (buildNavigationObjects ! 1)) (Vector3 1 1 1) 0.1)
                       (Vector3 1.2 1.2 1.2) 0.1
                else lerp (mesh_scale (buildNavigationObjects ! 1)) (Vector3 1 1 1) 0.1)"
    by blast
  with o(1) have "objs2 = objs" by simp
  have o0: "mesh_scale (objs ! 0) = Vector3 1.02 1.02 1.02"
    by (simp only: o3 if_P[OF hb(1)] sb(1) l0(1))
  have o1: "mesh_scale (objs ! 1) = Vector3 1 1 1"
    using o4 unfolding \<open>objs2 = objs\<close> by (simp only: if_not_P[OF hb(2)] sb(2) l0(2))
  have k: "0 < length objs" "1 < length objs" using o(2) b by simp_all
  have len: "length objs = 9" using o(2) by (simp add: length_buildNavigationObjects)
  have i: "intersectObjects hoverCore objs = [\<lparr>hit_distance = 10, hit_object = 0\<rparr>]"
    by (simp add: intersectObjects_def hoverCore_def len numeral_eq_Suc)
  from C6_hover_scaling[OF m r o(1) k(1), of hoverCore 16] obtain objs' where
    o': "navigationObjects (frame hoverCore 16 st0) = Some objs'"
      "mesh_scale (objs' ! 0) = Vector3 1.0362 1.0362 1.0362"
    by (auto simp: i o0 lerp_def)
  from C6_hover_scaling[OF m r o(1) k(2), of hoverCore 16] o'(1)
  have "mesh_scale (objs' ! 1) = Vector3 1 1 1"
    using o1 by (auto simp: i lerp_def)
  with m r o(1) o0 o' o1 i have
    "mount hoverCore 0 = Inr st0 \<and> run [] st0 = Inr st0
     \<and> navigationObjects st0 = Some objs
     \<and> navigationObjects (frame hoverCore 16 st0) = Some objs'
     \<and> intersectObjects hoverCore objs = [\<lparr>hit_distance = 10, hit_object = 0\<rparr>]
     \<and> mesh_scale (objs ! 0) = Vector3 1.02 1.02 1.02
     \<and> mesh_scale (objs' ! 0) = Vector3 1.0362 1.0362 1.0362
     \<and> mesh_scale (objs ! 1) = Vector3 1 1 1
     \<and> mesh_scale (objs' ! 1) = Vector3 1 1 1"
    by simp
  then show ?thesis by (intro exI)
qed

text \<open>
  C7. One step of a camera transition whose start and destination positions differ,
  taking the interpolation parameter to a value \<open>t\<close> strictly between 0 and 1: the
  camera position is the linear interpolation of start and destination at the eased
  parameter \<open>1 - (1 - t)\<^sup>3\<close>, the eased parameter is strictly between 0 and 1, so the
  position is a point of the open segment from start to destination: it is neither
  of the two and each of its coordinates lies between theirs.
\<close>

theorem C7_eased_position_between:
  assumes "tr_startPosition tr \<noteq> tr_targetPosition tr"
    and "0 < tr_progress tr + 0.02" and "tr_progress tr + 0.02 < 1"
  shows "let t = tr_progress tr + 0.02; e = 1 - (1 - t) ^ 3;
             a = tr_startPosition tr; b = tr_targetPosition tr;
             p = cam_position (fst (animateCamera tr cam))
         in p = lerpVectors a b e \<and> 0 < e \<and> e < 1 \<and> p \<noteq> a \<and> p \<noteq> b
            \<and> min (vx a) (vx b) \<le> vx p \<and> vx p \<le> max (vx a) (vx b)
            \<and> min (vy a) (vy b) \<le> vy p \<and> vy p \<le> max (vy a) (vy b)
            \<and> min (vz a) (vz b) \<le> vz p \<and> vz p \<le> max (vz a) (vz b)"
proof -
  define t where "t = tr_progress tr + 0.02"
  define e where "e = 1 - (1 - t) ^ 3"
  define a where "a = tr_startPosition tr"
  define b where "b = tr_targetPosition tr"
  define p where "p = cam_position (fst (animateCamera tr cam))"
  have t: "0 < t" "t < 1" using assms(2,3) by (simp_all add: t_def)
  have e: "0 < e" "e < 1" using easing_bounds[OF t] by (simp_all add: e_def)
  have p: "p = lerpVectors a b e"
    using t by (simp add: p_def animateCamera_def Let_def t_def e_def a_def b_def)
  have ab: "a \<noteq> b" using assms(1) by (simp add: a_def b_def)
  have na: "p \<noteq> a" using lerpVectors_start[of a b e] ab e p by auto
  have nb: "p \<noteq> b" using lerpVectors_end[of a b e] ab e p by auto
  have c: "min (vx a) (vx b) \<le> vx p" "vx p \<le> max (vx a) (vx b)"
    "min (vy a) (vy b) \<le> vy p" "vy p \<le> max (vy a) (vy b)"
    "min (vz a) (vz b) \<le> vz p" "vz p \<le> max (vz a) (vz b)"
    using lerp_between[of e] e by (simp_all add: p lerpVectors_def)
  show ?thesis
    using p e na nb c unfolding Let_def t_def[symmetric] e_def[symmetric] a_def[symmetric]
      b_def[symmetric] p_def[symmetric]
    by simp
qed

theorem C7_witness:
  "cam_position (fst (animateCamera
      \<lparr>tr_startPosition = Vector3 0 0 12, tr_targetPosition = Vector3 (- 8) 3 8,
       tr_target = Vector3 (- 2) 0 0, tr_progress = 0.48\<rparr>
      \<lparr>cam_position = Vector3 (- 6.8) 2.55 8.6, cam_lookAt = Some (Vector3 (- 2) 0 0)\<rparr>))
     = Vector3 (- 7) 2.625 8.5
   \<and> (1::real) - (1 - 0.5) ^ 3 = 0.875
   \<and> Vector3 (- 7) 2.625 8.5 \<noteq> Vector3 0 0 12
   \<and> Vector3 (- 7) 2.625 8.5 \<noteq> Vector3 (- 8) 3 8"
proof -
  let ?tr = "\<lparr>tr_startPosition = Vector3 0 0 12, tr_targetPosition = Vector3 (- 8) 3 8,
       tr_target = Vector3 (- 2) 0 0, tr_progress = 0.48\<rparr>"
  let ?cam = "\<lparr>cam_position = Vector3 (- 6.8) 2.55 8.6, cam_lookAt = Some (Vector3 (- 2) 0 0)\<rparr>"
  have h: "tr_startPosition ?tr \<noteq> tr_targetPosition ?tr" "0 < tr_progress ?tr + 0.02"
    "tr_progress ?tr + 0.02 < 1"
    by simp_all
  have e: "(1::real) - (1 - (0.48 + 0.02)) ^ 3 = 0.875" by (simp add: power3_eq_cube)
  from C7_eased_position_between[OF h, of ?cam]
  have "cam_position (fst (animateCamera ?tr ?cam))
          = lerpVectors (Vector3 0 0 12) (Vector3 (- 8) 3 8) (1 - (1 - (0.48 + 0.02)) ^ 3)"
    by (simp add: Let_def)
  then have "cam_position (fst (animateCamera ?tr ?cam)) = Vector3 (- 7) 2.625 8.5"
    unfolding e by (simp add: lerpVectors_def)
  then show ?thesis by (simp add: power3_eq_cube)
qed

text \<open>
  C8. Navigation to the section that is already current is idempotent. On every state,
  \<^verbatim>\<open>handleNavigation\<close> with the current section returns the state as it was, from the
  dock and from a click that picks an object of the current section: the navigation
  state is unchanged, no callback is registered and the camera is not written (no
  second camera transition), and the mounted panel is the same. So the same navigation
  twice has the result of the navigation once, whether it succeeds or throws. The
  source of \<^verbatim>\<open>handleNavigation\<close> has no test of its own for this: it is the state setter
  and the dependency arrays of React, modelled in \<open>setCurrentSection\<close> and \<open>rerender\<close>,
  that make it so.
\<close>

theorem C8_same_section_idempotent:
  "handleNavigation (currentSection st) st = Inr st
   \<and> step (Dock (currentSection st)) st = Inr st
   \<and> run [Dock s, Dock s] st = run [Dock s] st
   \<and> (\<forall>cam objs i rest.
         cameraRef st = Some cam \<and> navigationObjects st = Some objs
         \<and> intersectObjects h objs = i # rest
         \<and> ud_section (mesh_userData (objs ! hit_object i)) = currentSection st
         \<longrightarrow> handleClick h st = Inr st \<and> step (Click h) st = Inr st)"
proof -
  have same: "handleNavigation (currentSection st) st = Inr st"
    by (simp add: handleNavigation_unfold)
  have twice: "run [Dock s, Dock s] st = run [Dock s] st"
  proof (cases "handleNavigation s st")
    case (Inl err)
    then show ?thesis by simp
  next
    case (Inr st')
    then have "currentSection st' = s" by (rule handleNavigation_section)
    then have "handleNavigation s st' = Inr st'" by (simp add: handleNavigation_unfold)
    with Inr show ?thesis by simp
  qed
  have click: "handleClick h st = Inr st \<and> step (Click h) st = Inr st"
    if "cameraRef st = Some cam" "navigationObjects st = Some objs"
      "intersectObjects h objs = i # rest"
      "ud_section (mesh_userData (objs ! hit_object i)) = currentSection st"
    for cam objs i rest
    using that same by (simp add: handleClick_def Let_def)
  from same twice click show ?thesis by simp
qed

theorem C8_witness:
  "\<exists>st0 st1 tr. mount noHits 0 = Inr st0 \<and> currentSection st0 = ''home''
     \<and> run [Dock ''about''] st0 = Inr st1 \<and> currentSection st1 = ''about''
     \<and> rafQueue st1 = rafQueue st0 @ [AnimateCamera tr]
     \<and> run [Dock ''about'', Dock ''about''] st0 = Inr st1
     \<and> run [Dock ''about'', Click hoverCore] st0 = Inr st1
     \<and> run [Dock ''home'', Click noHits] st0 = Inr st0"
proof -
  obtain st0 where m: "mount noHits 0 = Inr st0" using mount_total by blast
  have h0: "currentSection st0 = ''home''" using mount_section[OF m] .
  have "sceneInv st0" using mounted_mount[OF m] by (simp add: mounted_def)
  then obtain cam where c0: "cameraRef st0 = Some cam" by (auto simp: sceneInv_def)
  have tc: "targetConfig ''about''
              = Config \<lparr>cfg_position = Vector3 (- 8) 3 8, cfg_target = Vector3 (- 2) 0 0\<rparr>"
    by (simp add: targetConfig_def js_get_def CAMERA_POSITIONS_def)
  from handleNavigation_starts[OF c0 _ tc] h0 obtain st1 tr where
    n: "handleNavigation ''about'' st0 = Inr st1" "currentSection st1 = ''about''"
      "rafQueue st1 = rafQueue st0 @ [AnimateCamera tr]"
    by auto
  have r1: "run [Dock ''about''] st0 = Inr st1" using n(1) by simp
  have r2: "run [Dock ''about'', Dock ''about''] st0 = Inr st1"
    using C8_same_section_idempotent[of st0 "''about''" noHits] r1 by simp
  have "mounted st1" using mounted_run[OF mounted_mount[OF m] r1] .
  then have i1: "sceneInv st1" by (simp add: mounted_def)
  then obtain cam1 objs where
    s1: "cameraRef st1 = Some cam1" "navigationObjects st1 = Some objs"
    by (auto simp: sceneInv_def)
  have len: "length objs = 9"
    using built_length[OF i1 s1(2)] by (simp add: length_buildNavigationObjects)
  then have i: "intersectObjects hoverCore objs = [\<lparr>hit_distance = 10, hit_object = 0\<rparr>]"
    by (simp add: intersectObjects_def hoverCore_def numeral_eq_Suc)
  have "mesh_userData (objs ! 0) = mesh_userData (buildNavigationObjects ! 0)"
    using built_userData[OF i1 s1(2), of 0] len by simp
  then have sec: "ud_section (mesh_userData (objs ! hit_object \<lparr>hit_distance = 10, hit_object = 0\<rparr>))
                    = currentSection st1"
    using n(2) by (simp add: buildNavigationObjects_list coreMesh_def)
  have "step (Click hoverCore) st1 = Inr st1"
    using C8_same_section_idempotent[of st1 "''about''" hoverCore] s1 i sec by blast
  then have r3: "run [Dock ''about'', Click hoverCore] st0 = Inr st1" using n(1) by simp
  have "step (Dock (currentSection st0)) st0 = Inr st0"
    using C8_same_section_idempotent[of st0 "''home''" noHits] by blast
  then have r4: "run [Dock ''home'', Click noHits] st0 = Inr st0" using h0 by simp
  from m h0 r1 n(2,3) r2 r3 r4 show ?thesis by blast
qed

text \<open>
  C9. Every navigation object built for the scene is tagged about, skills, experience
  or projects, and none home or contact. So in every state the mounted application can
  reach a click returns either the state as it was or a state whose navigation state is
  one of those four sections: a click never makes home or contact the navigation state.
  The dock does: in any state, its buttons for home and for contact make that section
  the navigation state.
\<close>

theorem C9_object_sections:
  "(\<forall>m\<in>set buildNavigationObjects.
       ud_section (mesh_userData m) \<in> {''about'', ''skills'', ''experience'', ''projects''})
   \<and> (mount h0 t0 = Inr st0 \<longrightarrow> run evs st0 = Inr st \<longrightarrow>
        (\<exists>st'. handleClick h st = Inr st'
           \<and> (st' = st
               \<or> currentSection st' \<in> {''about'', ''skills'', ''experience'', ''projects''})
           \<and> (currentSection st' \<in> {''home'', ''contact''} \<longrightarrow> st' = st)))
   \<and> (\<forall>s\<in>{''home'', ''contact''}. \<exists>st'. step (Dock s) st1 = Inr st' \<and> currentSection st' = s)"
proof (intro conjI impI ballI)
  fix m assume "m \<in> set buildNavigationObjects"
  then show "ud_section (mesh_userData m) \<in> {''about'', ''skills'', ''experience'', ''projects''}"
    using sections_built by (simp add: clickableSections_def)
next
  assume "mount h0 t0 = Inr st0" "run evs st0 = Inr st"
  then have "sceneInv st" using mounted_mount mounted_run mounted_def by blast
  from handleClick_reach[OF this, of h] obtain st' where
    "handleClick h st = Inr st'" "st' = st \<or> currentSection st' \<in> set clickableSections"
    by blast
  then show "\<exists>st'. handleClick h st = Inr st'
           \<and> (st' = st
               \<or> currentSection st' \<in> {''about'', ''skills'', ''experience'', ''projects''})
           \<and> (currentSection st' \<in> {''home'', ''contact''} \<longrightarrow> st' = st)"
    by (auto simp: clickableSections_def)
next
  fix s :: string assume "s \<in> {''home'', ''contact''}"
  then have "s \<notin> set Object_prototype" by (auto simp: Object_prototype_def)
  from handleNavigation_total[OF this, of st1] obtain st' where
    "handleNavigation s st1 = Inr st'" by blast
  then show "\<exists>st'. step (Dock s) st1 = Inr st' \<and> currentSection st' = s"
    using handleNavigation_section by auto
qed

theorem C9_witness:
  "\<exists>st0 st'. mount noHits 0 = Inr st0 \<and> run [] st0 = Inr st0
     \<and> handleClick hoverCore st0 = Inr st' \<and> currentSection st0 = ''home''
     \<and> currentSection st' = ''about'' \<and> st' \<noteq> st0
     \<and> ud_section (mesh_userData projectsRing) = ''projects''
     \<and> projectsRing \<in> set buildNavigationObjects
     \<and> (\<exists>st2. step (Dock ''contact'') st' = Inr st2 \<and> currentSection st2 = ''contact'')"
proof -
  obtain st0 where m: "mount noHits 0 = Inr st0" using mount_total by blast
  have r: "run [] st0 = Inr st0" by simp
  have h: "currentSection st0 = ''home''"
    using m by (auto simp: mount_def sceneState_eq split: sum.splits
        dest!: cameraEffect_Inr_section)
  note c9 = C9_object_sections[of h0 t0 st0 evs st h st1 for h0 t0 evs st h st1]
  from c9[of noHits 0 "[]" st0 hoverCore] m r obtain st' where
    c: "handleClick hoverCore st0 = Inr st'"
      "st' = st0 \<or> currentSection st' \<in> {''about'', ''skills'', ''experience'', ''projects''}"
    by blast
  have "mounted st0" using mounted_mount[OF m] .
  then have si: "sceneInv st0" by (simp add: mounted_def)
  from handleClick_mounted[OF si, of hoverCore] obtain cam objs where
    o: "navigationObjects st0 = Some objs"
      "\<forall>i rest. intersectObjects hoverCore objs = i # rest \<longrightarrow>
          hit_object i < length objs
          \<and> ud_section (mesh_userData (objs ! hit_object i)) \<in> set clickableSections
          \<and> (\<exists>st'. handleClick hoverCore st0 = Inr st'
                \<and> currentSection st' = ud_section (mesh_userData (objs ! hit_object i)))"
    by blast
  have ud: "map mesh_userData objs = map mesh_userData buildNavigationObjects"
    using o(1) si by (auto simp: sceneInv_def)
  then have len: "length objs = 9" using core_is_first(1) by blast
  then have i: "intersectObjects hoverCore objs = [\<lparr>hit_distance = 10, hit_object = 0\<rparr>]"
    by (simp add: intersectObjects_def hoverCore_def numeral_eq_Suc)
  have "mesh_userData (objs ! 0) = mesh_userData (buildNavigationObjects ! 0)"
    using ud len by (metis length_map nth_map zero_less_numeral)
  then have s: "ud_section (mesh_userData (objs ! 0)) = ''about''"
    by (simp add: buildNavigationObjects_list coreMesh_def)
  from o(2) i s c(1) have a: "currentSection st' = ''about''" by auto
  then have ne: "st' \<noteq> st0" using h by auto
  from c9[of _ _ _ _ _ st'] obtain st2 where
    "step (Dock ''contact'') st' = Inr st2" "currentSection st2 = ''contact''"
    by blast
  moreover have "ud_section (mesh_userData projectsRing) = ''projects''"
    "projectsRing \<in> set buildNavigationObjects"
    by (simp_all add: projectsRing_def buildNavigationObjects_list)
  ultimately show ?thesis using m r c(1) h a ne by blast
qed



end
